theory Spec2Isabelle
  imports Complex_Main
begin

section \<open>Numbers\<close>

text \<open>
  The program is JavaScript; every number in it is a \<open>Number\<close>, an IEEE 754 binary64
  value. Outside the two calendar functions of \<open>julianDay.js\<close> the embedding reads the
  arithmetic of the code over the real numbers: \<open>+\<close>, \<open>-\<close>, \<open>*\<close> and \<open>/\<close> are exact,
  there is no NaN and no infinity, \<open>Math.floor\<close> is the floor and \<open>%\<close> is the truncated
  remainder. A value that the code obtains from \<open>parseFloat\<close> and tests with \<open>isNaN\<close> is
  a \<open>real option\<close>, with \<open>None\<close> for NaN. A theorem about a function that is read in
  this way is a statement about this exact reading of the source.

  The calendar functions \<open>dateToJulianDay\<close> and \<open>julianDayToDate\<close> take the floor of
  quantities that rounding moves across a whole number (the time 13:00:00 comes back as
  12:59:59), so they are read in binary64 arithmetic, see \<open>fl\<close> below.
\<close>

definition Math_floor :: "real \<Rightarrow> real" where
  "Math_floor x = of_int \<lfloor>x\<rfloor>"

definition Math_trunc :: "real \<Rightarrow> int" where
  "Math_trunc x = (if 0 \<le> x then \<lfloor>x\<rfloor> else \<lceil>x\<rceil>)"

text \<open>The operator \<open>%\<close>: the remainder has the sign of the dividend.\<close>

definition js_rem :: "real \<Rightarrow> real \<Rightarrow> real" where
  "js_rem x y = x - y * of_int (Math_trunc (x / y))"

text \<open>
  \<open>Math.atan2(y, x)\<close>: the angle of the point \<open>(x, y)\<close>, in \<open>(-pi, pi]\<close>; at the origin
  the code's library returns 0 (signed zeros are not modelled).
\<close>

definition Math_atan2 :: "real \<Rightarrow> real \<Rightarrow> real" where
  "Math_atan2 y x =
     (if 0 < x then arctan (y / x)
      else if x < 0 then (if 0 \<le> y then arctan (y / x) + pi else arctan (y / x) - pi)
      else if 0 < y then pi / 2
      else if y < 0 then - (pi / 2)
      else 0)"

subsection \<open>Rounding to binary64\<close>

text \<open>
  \<open>fl x\<close> is the binary64 number nearest to \<open>x\<close>: with \<open>e = \<lfloor>log2 |x|\<rfloor>\<close>, the multiple of
  \<open>2^(e - 52)\<close> nearest to \<open>x\<close> (a significand of 53 bits), a tie going to the even
  multiple. This is the rounding that IEEE 754 prescribes for the result of \<open>+\<close>, \<open>-\<close>,
  \<open>*\<close> and \<open>/\<close> and for a decimal literal. The exponent range is not modelled: no
  overflow and no subnormal numbers (the nonzero values of the calendar functions have
  magnitudes between \<open>1 / 60\<close> and \<open>2^22\<close>). The lemma \<open>fl_binade\<close> below evaluates
  \<open>fl\<close> at a number whose power of two is known.
\<close>

definition round_even :: "real \<Rightarrow> int" where
  "round_even x =
     (let n = \<lfloor>x\<rfloor>; r = x - of_int n
      in if r < 1 / 2 then n else if r > 1 / 2 then n + 1 else if even n then n else n + 1)"

definition fl :: "real \<Rightarrow> real" where
  "fl x =
     (if x = 0 then 0
      else (let e = \<lfloor>log 2 \<bar>x\<bar>\<rfloor> - 52
            in of_int (round_even (x / 2 powi e)) * 2 powi e))"

section \<open>julianDay.js\<close>

definition normalizeAngle :: "real \<Rightarrow> real" where
  "normalizeAngle angle =
     (let normalized = js_rem angle 360
      in if normalized < 0 then normalized + 360 else normalized)"

definition degreesToRadians :: "real \<Rightarrow> real" where
  "degreesToRadians degrees = degrees * pi / 180"

definition radiansToDegrees :: "real \<Rightarrow> real" where
  "radiansToDegrees radians = radians * 180 / pi"

definition julianCenturies :: "real \<Rightarrow> real" where
  "julianCenturies jd = (jd - 2451545.0) / 36525.0"

record date_components =
  dc_year :: real
  dc_month :: real
  dc_day :: real
  dc_hour :: real
  dc_minute :: real
  dc_second :: real

text \<open>
  The two calendar functions in binary64 arithmetic: the result of every \<open>+\<close>, \<open>-\<close>, \<open>*\<close>
  and \<open>/\<close> of the source is rounded by \<open>fl\<close>, in the order in which JavaScript evaluates
  the expression (\<open>a + b + c\<close> is \<open>(a + b) + c\<close>). The literals \<open>30.6001\<close> and \<open>122.1\<close>
  are not binary fractions and stand for the binary64 numbers \<open>fl 30.6001\<close> and
  \<open>fl 122.1\<close>; the whole numbers and \<open>0.5\<close>, \<open>365.25\<close>, \<open>1524.5\<close>, \<open>36524.25\<close> and
  \<open>1867216.25\<close> are binary64 numbers as they stand. \<open>Math.floor\<close> and the comparisons are
  exact. The arguments are taken to be binary64 numbers.
\<close>

definition dateToJulianDay :: "real \<Rightarrow> real \<Rightarrow> real \<Rightarrow> real \<Rightarrow> real \<Rightarrow> real \<Rightarrow> real" where
  "dateToJulianDay year month day hour minute second =
     (let decimalDay = fl (day + fl (fl (hour + fl (fl (minute + fl (second / 60)) / 60)) / 24));
          y = (if month \<le> 2 then fl (year - 1) else year);
          m = (if month \<le> 2 then fl (month + 12) else month);
          A = Math_floor (fl (y / 100));
          B = fl (fl (2 - A) + Math_floor (fl (A / 4)));
          JD_UTC = fl (fl (fl (fl (Math_floor (fl (365.25 * fl (y + 4716))) +
                                   Math_floor (fl (fl 30.6001 * fl (m + 1)))) +
                               decimalDay) + B) - 1524.5)
      in JD_UTC)"

definition julianDayToDate :: "real \<Rightarrow> date_components" where
  "julianDayToDate jd =
     (let Z = Math_floor (fl (jd + 0.5));
          F = fl (fl (jd + 0.5) - Z);
          A = (if Z \<ge> 2299161
               then (let alpha = Math_floor (fl (fl (Z - 1867216.25) / 36524.25))
                     in fl (fl (fl (Z + 1) + alpha) - Math_floor (fl (alpha / 4))))
               else Z);
          B = fl (A + 1524);
          C = Math_floor (fl (fl (B - fl 122.1) / 365.25));
          D = Math_floor (fl (365.25 * C));
          E = Math_floor (fl (fl (B - D) / fl 30.6001));
          day = fl (fl (fl (B - D) - Math_floor (fl (fl 30.6001 * E))) + F);
          month = (if E < 14 then fl (E - 1) else fl (E - 13));
          year = (if month > 2 then fl (C - 4716) else fl (C - 4715));
          decimalDay = fl (day - Math_floor day);
          hours = fl (decimalDay * 24);
          minutes = fl (fl (hours - Math_floor hours) * 60);
          seconds = fl (fl (minutes - Math_floor minutes) * 60)
      in \<lparr>dc_year = year, dc_month = month, dc_day = Math_floor day,
          dc_hour = Math_floor hours, dc_minute = Math_floor minutes,
          dc_second = Math_floor seconds\<rparr>)"

definition calculateGMST :: "real \<Rightarrow> real" where
  "calculateGMST jd =
     (let T = julianCenturies jd;
          gmst = 280.46061837 +
                 360.98564736629 * (jd - 2451545.0) +
                 0.000387933 * T * T -
                 T * T * T / 38710000.0
      in normalizeAngle gmst)"

definition calculateLST :: "real \<Rightarrow> real \<Rightarrow> real" where
  "calculateLST jd longitude = normalizeAngle (calculateGMST jd + longitude)"

definition calculateObliquity :: "real \<Rightarrow> real" where
  "calculateObliquity jd =
     (let T = julianCenturies jd;
          epsilon = 84381.406 -
                    46.836769 * T -
                    0.0001831 * T * T +
                    0.00200340 * T * T * T -
                    0.000000576 * T * T * T * T -
                    0.0000000434 * T * T * T * T * T
      in epsilon / 3600.0)"

section \<open>time-corrections.js\<close>

text \<open>
  The fifteen segments of the Delta-T polynomial, in the order of the source's
  \<open>if\<close> chain. A product \<open>t * t * t\<close> of the source is written \<open>t ^ 3\<close>.
\<close>

definition calculateDeltaT :: "real \<Rightarrow> real" where
  "calculateDeltaT y =
     (if y < -500 then
        (let u = (y - 1820) / 100 in -20 + 32 * u * u)
      else if y < 500 then
        (let u = y / 100
         in 10583.6 - 1014.41 * u + 33.78311 * u ^ 2 - 5.952053 * u ^ 3
            - 0.1798452 * u ^ 4 + 0.022174192 * u ^ 5
            + 0.0090316521 * u ^ 6)
      else if y < 1600 then
        (let u = (y - 1000) / 100
         in 1574.2 - 556.01 * u + 71.23472 * u ^ 2 + 0.319781 * u ^ 3
            - 0.8503463 * u ^ 4 - 0.005050998 * u ^ 5
            + 0.0083572073 * u ^ 6)
      else if y < 1700 then
        (let t = y - 1600
         in 120 - 0.9808 * t - 0.01532 * t ^ 2 + t ^ 3 / 7129)
      else if y < 1800 then
        (let t = y - 1700
         in 8.83 + 0.1603 * t - 0.0059285 * t ^ 2 + 0.00013336 * t ^ 3
            - t ^ 4 / 1174000)
      else if y < 1860 then
        (let t = y - 1800
         in 13.72 - 0.332447 * t + 0.0068612 * t ^ 2 + 0.0041116 * t ^ 3
            - 0.00037436 * t ^ 4 + 0.0000121272 * t ^ 5
            - 0.0000001699 * t ^ 6
            + 0.000000000875 * t ^ 7)
      else if y < 1900 then
        (let t = y - 1860
         in 7.62 + 0.5737 * t - 0.251754 * t ^ 2 + 0.01680668 * t ^ 3
            - 0.0004473624 * t ^ 4 + t ^ 5 / 233174)
      else if y < 1920 then
        (let t = y - 1900
         in -2.79 + 1.494119 * t - 0.0598939 * t ^ 2 + 0.0061966 * t ^ 3
            - 0.000197 * t ^ 4)
      else if y < 1941 then
        (let t = y - 1920
         in 21.20 + 0.84493 * t - 0.076100 * t ^ 2 + 0.0020936 * t ^ 3)
      else if y < 1961 then
        (let t = y - 1950
         in 29.07 + 0.407 * t - t ^ 2 / 233 + t ^ 3 / 2547)
      else if y < 1986 then
        (let t = y - 1975
         in 45.45 + 1.067 * t - t ^ 2 / 260 - t ^ 3 / 718)
      else if y < 2005 then
        (let t = y - 2000
         in 63.86 + 0.3345 * t - 0.060374 * t ^ 2 + 0.0017275 * t ^ 3
            + 0.000651814 * t ^ 4 + 0.00002373599 * t ^ 5)
      else if y < 2050 then
        (let t = y - 2000
         in 62.92 + 0.32217 * t + 0.005589 * t ^ 2)
      else if y < 2150 then
        -20 + 32 * ((y - 1820) / 100) * ((y - 1820) / 100)
        - 0.5628 * (2150 - y)
      else
        (let u = (y - 1820) / 100 in -20 + 32 * u * u))"

definition utcToTT :: "real \<Rightarrow> real \<Rightarrow> real" where
  "utcToTT jd_utc year =
     (let deltaT = calculateDeltaT year;
          deltaT_days = deltaT / 86400.0
      in jd_utc + deltaT_days)"

definition ttToUTC :: "real \<Rightarrow> real \<Rightarrow> real" where
  "ttToUTC jd_tt year =
     (let deltaT = calculateDeltaT year;
          deltaT_days = deltaT / 86400.0
      in jd_tt - deltaT_days)"

text \<open>
  \<open>localToUTC\<close> keeps a table of the days of each month, with 29 days for February in
  a leap year. Reading a JavaScript array at an index that is not one of its positions
  gives \<open>undefined\<close> (\<open>None\<close>), and a comparison with \<open>undefined\<close> is false.
\<close>

definition daysInMonth :: "real \<Rightarrow> real list" where
  "daysInMonth utcYear =
     (let table = [31, 28, 31, 30, 31, 30, 31, 31, 30, 31, 30, 31]
      in if js_rem utcYear 4 = 0 \<and> (js_rem utcYear 100 \<noteq> 0 \<or> js_rem utcYear 400 = 0)
         then table[1 := 29] else table)"

definition array_at :: "real list \<Rightarrow> real \<Rightarrow> real option" where
  "array_at xs i =
     (if 0 \<le> i \<and> i < real (length xs) \<and> of_int \<lfloor>i\<rfloor> = i
      then Some (xs ! nat \<lfloor>i\<rfloor>) else None)"

definition greater_than :: "real \<Rightarrow> real option \<Rightarrow> bool" where
  "greater_than x v = (case v of None \<Rightarrow> False | Some n \<Rightarrow> x > n)"

record utc_components =
  utc_year :: real
  utc_month :: real
  utc_day :: "real option"
  utc_hour :: real
  utc_minute :: real
  utc_second :: real

definition localToUTC ::
  "real \<Rightarrow> real \<Rightarrow> real \<Rightarrow> real \<Rightarrow> real \<Rightarrow> real \<Rightarrow> real \<Rightarrow> utc_components" where
  "localToUTC year month day hour minute second timezoneOffset =
     (let utcHour0 = hour - timezoneOffset;
          (utcDay0, utcHour) =
             (if utcHour0 \<ge> 24 then (day + 1, utcHour0 - 24)
              else if utcHour0 < 0 then (day - 1, utcHour0 + 24)
              else (day, utcHour0));
          table = daysInMonth year;
          (utcYear, utcMonth, utcDay) =
             (if greater_than utcDay0 (array_at table (month - 1)) then
                (if month + 1 > 12 then (year + 1, 1, Some 1) else (year, month + 1, Some 1))
              else if utcDay0 < 1 then
                (let (utcYear1, utcMonth1) =
                       (if month - 1 < 1 then (year - 1, 12) else (year, month - 1))
                 in (utcYear1, utcMonth1, array_at table (utcMonth1 - 1)))
              else (year, month, Some utcDay0))
      in \<lparr>utc_year = utcYear, utc_month = utcMonth, utc_day = utcDay,
          utc_hour = Math_floor utcHour, utc_minute = minute, utc_second = second\<rparr>)"

record jd_data =
  jd_utc :: real
  jd_tt :: real
  deltaT :: real
  deltaT_days :: real

definition dateToJulianDayTT ::
  "real \<Rightarrow> real \<Rightarrow> real \<Rightarrow> real \<Rightarrow> real \<Rightarrow> real \<Rightarrow> jd_data" where
  "dateToJulianDayTT year month day hour minute second =
     (let jd_utc = dateToJulianDay year month day hour minute second;
          deltaT = calculateDeltaT year;
          jd_tt = utcToTT jd_utc year
      in \<lparr>jd_utc = jd_utc, jd_tt = jd_tt, deltaT = deltaT, deltaT_days = deltaT / 86400.0\<rparr>)"

subsection \<open>The calendar functions on whole days\<close>

text \<open>
  The whole-number computations inside \<open>dateToJulianDay\<close> and \<open>julianDayToDate\<close>, with
  each \<open>Math.floor\<close> of a quotient written as an integer division: \<open>365.25 = 1461 / 4\<close>,
  \<open>30.6001 = 306001 / 10000\<close>, \<open>(Z - 1867216.25) / 36524.25 = (4 Z - 7468865) / 146097\<close>
  and \<open>(B - 122.1) / 365.25 = (20 B - 2442) / 7305\<close>. The lemmas \<open>dateToJulianDay_fl\<close>
  and \<open>julianDayToDate_fl\<close> below prove that the two source functions, rounding
  included, compute exactly these.
\<close>

definition jdn_of_date :: "int \<Rightarrow> int \<Rightarrow> int \<Rightarrow> int" where
  "jdn_of_date y m d =
     (let yy = (if m \<le> 2 then y - 1 else y);
          mm = (if m \<le> 2 then m + 12 else m);
          A = yy div 100;
          B = 2 - A + A div 4
      in (1461 * (yy + 4716)) div 4 + (306001 * (mm + 1)) div 10000 + d + B - 1524)"

definition date_of_jdn :: "int \<Rightarrow> int \<times> int \<times> int" where
  "date_of_jdn Z =
     (let alpha = (4 * Z - 7468865) div 146097;
          A = Z + 1 + alpha - alpha div 4;
          B = A + 1524;
          C = (20 * B - 2442) div 7305;
          D = (1461 * C) div 4;
          E = (10000 * (B - D)) div 306001;
          day = B - D - (306001 * E) div 10000;
          month = (if E < 14 then E - 1 else E - 13);
          year = (if month > 2 then C - 4716 else C - 4715)
      in (year, month, day))"

text \<open>
  The years at which \<open>calculateDeltaT\<close> passes from one segment to the next, and the
  jump there as the specification measures it: the value a thousandth of a year before
  the boundary against the value at the boundary.
\<close>

definition segment_boundaries :: "real list" where
  "segment_boundaries =
     [-500, 500, 1600, 1700, 1800, 1860, 1900, 1920, 1941, 1961, 1986, 2005, 2050, 2150]"

definition deltaT_jump :: "real \<Rightarrow> real" where
  "deltaT_jump B = \<bar>calculateDeltaT (B - 0.001) - calculateDeltaT B\<bar>"

section \<open>planets.js\<close>

subsection \<open>The Kepler solver\<close>

text \<open>
  \<open>solveKepler\<close> runs its loop body at most \<open>maxIterations = 30\<close> times and leaves the
  loop as soon as a step is smaller than the tolerance. The counter of the model is the
  number of iterations still allowed. The divisor \<open>1 - e * cos E\<close> is not zero for an
  eccentricity below 1, which is all the program passes.
\<close>

definition tolerance :: real where
  "tolerance = 1 / 10 ^ 8"

fun solveKepler_loop :: "nat \<Rightarrow> real \<Rightarrow> real \<Rightarrow> real \<Rightarrow> real" where
  "solveKepler_loop 0 E M e = E"
| "solveKepler_loop (Suc k) E M e =
     (let dE = (E - e * sin E - M) / (1 - e * cos E);
          E' = E - dE
      in if \<bar>dE\<bar> < tolerance then E' else solveKepler_loop k E' M e)"

definition solveKepler :: "real \<Rightarrow> real \<Rightarrow> real" where
  "solveKepler M e = solveKepler_loop 30 M M e"

subsection \<open>Constants, zodiac and Kepler positions\<close>

text \<open>
  An entry of \<open>PLANETARY_CONSTANTS\<close>. The Moon's entry has no \<open>a\<close>, \<open>e\<close>, \<open>i\<close>,
  \<open>omega\<close> and \<open>pi\<close>: a field the object lacks reads as \<open>undefined\<close>, here \<open>None\<close>.
\<close>

record planet_constants =
  pc_L0 :: real
  pc_L1 :: real
  pc_n :: real
  pc_M0 :: real
  pc_a :: "real option"
  pc_e :: "real option"
  pc_i :: "real option"
  pc_omega :: "real option"
  pc_pi :: "real option"
  pc_color :: string

definition orbit ::
  "real \<Rightarrow> real \<Rightarrow> real \<Rightarrow> real \<Rightarrow> real \<Rightarrow> real \<Rightarrow> real \<Rightarrow> real \<Rightarrow> real \<Rightarrow> string
    \<Rightarrow> planet_constants" where
  "orbit L0 L1 n M0 a e i omega p color =
     \<lparr>pc_L0 = L0, pc_L1 = L1, pc_n = n, pc_M0 = M0, pc_a = Some a, pc_e = Some e,
      pc_i = Some i, pc_omega = Some omega, pc_pi = Some p, pc_color = color\<rparr>"

definition Moon_constants :: planet_constants where
  "Moon_constants =
     \<lparr>pc_L0 = 218.3164477, pc_L1 = 481267.88123421, pc_n = 13.1763965268,
      pc_M0 = 134.9633964, pc_a = None, pc_e = None, pc_i = None, pc_omega = None,
      pc_pi = None, pc_color = ''#C0C0C0''\<rparr>"

definition PLANETARY_CONSTANTS :: "string \<rightharpoonup> planet_constants" where
  "PLANETARY_CONSTANTS = map_of
     [(''Sun'', orbit 280.46646 36000.76983 0.9856473602 357.52911
                  1.0 0.01671022 0.0 0.0 102.94719 ''#FDB813''),
      (''Mercury'', orbit 252.25084 149472.67411175 4.0923387847 174.79439
                  0.38709843 0.20563069 7.00487 48.33167 77.45645 ''#97979F''),
      (''Venus'', orbit 181.97973 58517.81538729 1.6021304692 50.44675
                  0.72333199 0.00677323 3.39471 76.68069 131.53298 ''#FFC649''),
      (''Moon'', Moon_constants),
      (''Mars'', orbit 355.45332 19140.29934243 0.5240328362 19.41248
                  1.52366231 0.09341233 1.85061 49.57854 336.04084 ''#DC143C''),
      (''Jupiter'', orbit 34.40438 3034.74612775 0.0830868207 19.65053
                  5.20336301 0.04839266 1.30530 100.55615 14.75385 ''#F4A460''),
      (''Saturn'', orbit 49.94432 1222.49362201 0.0334700513 317.51238
                  9.53707032 0.05415060 2.48446 113.71504 92.43194 ''#DAA520''),
      (''Uranus'', orbit 313.23218 428.48202785 0.0117311986 142.26794
                  19.19126393 0.04716771 0.76986 74.22988 170.96424 ''#4FD0E0''),
      (''Neptune'', orbit 304.88003 218.45945325 0.0059810939 259.90868
                  30.06896348 0.00858587 1.76917 131.72169 44.97135 ''#4169E1''),
      (''Pluto'', orbit 238.92881 145.20780515 0.0039755730 14.86205
                  39.48 0.24882 17.14 110.30 224.07 ''#8B4513'')]"

definition ZODIAC_SIGNS :: "string list" where
  "ZODIAC_SIGNS = [''Aries'', ''Taurus'', ''Gemini'', ''Cancer'', ''Leo'', ''Virgo'', ''Libra'',
                   ''Scorpio'', ''Sagittarius'', ''Capricorn'', ''Aquarius'', ''Pisces'']"

record zodiac =
  z_longitude :: real
  z_sign :: string
  z_degree :: real

text \<open>
  Of the object \<open>longitudeToZodiac\<close> returns, the model keeps the longitude, the name of
  the sign and the degree within the sign; the symbol and the formatted text are left
  out. The index \<open>signIndex\<close> lies in \<open>0..11\<close> because the normalised longitude lies in
  \<open>[0, 360)\<close>.
\<close>

definition longitudeToZodiac :: "real \<Rightarrow> zodiac" where
  "longitudeToZodiac longitude =
     (let normalizedLon = normalizeAngle longitude;
          signIndex = \<lfloor>normalizedLon / 30\<rfloor>;
          degree = js_rem normalizedLon 30
      in \<lparr>z_longitude = normalizedLon, z_sign = ZODIAC_SIGNS ! nat signIndex,
          z_degree = degree\<rparr>)"

datatype error =
  UnknownPlanet string
| EphemerisUnavailable "string option" "string option"
| TypeError string

record planet_position =
  pp_planet :: string
  pp_longitude :: real
  pp_meanAnomaly :: real
  pp_sign :: string
  pp_degree :: real
  pp_julianDay :: real
  pp_color :: string

text \<open>
  \<open>constants.e || 0.0167\<close> and \<open>constants.pi || 0\<close>: the default replaces a value that
  is \<open>undefined\<close> or 0.
\<close>

definition or_default :: "real option \<Rightarrow> real \<Rightarrow> real" where
  "or_default v dflt = (case v of None \<Rightarrow> dflt | Some x \<Rightarrow> if x = 0 then dflt else x)"

text \<open>
  The body of \<open>calculatePlanetPosition\<close> once the entry of the planet is found. The
  spread \<open>...zodiac\<close> follows the field \<open>longitude: lambda\<close> in the returned object and
  so supplies the longitude that is returned.
\<close>

definition position_from_constants :: "planet_constants \<Rightarrow> string \<Rightarrow> real \<Rightarrow> planet_position" where
  "position_from_constants constants planet jd =
     (let T = julianCenturies jd;
          daysSinceJ2000 = jd - 2451545.0;
          L = normalizeAngle (pc_L0 constants + pc_L1 constants * T);
          M = normalizeAngle (pc_M0 constants + pc_n constants * daysSinceJ2000);
          M_rad = degreesToRadians M;
          e = or_default (pc_e constants) 0.0167;
          E = solveKepler M_rad e;
          nu = 2 * Math_atan2 (sqrt (1 + e) * sin (E / 2)) (sqrt (1 - e) * cos (E / 2));
          lambda = normalizeAngle (radiansToDegrees nu + or_default (pc_pi constants) 0);
          zodiac = longitudeToZodiac lambda
      in \<lparr>pp_planet = planet, pp_longitude = z_longitude zodiac, pp_meanAnomaly = M,
          pp_sign = z_sign zodiac, pp_degree = z_degree zodiac, pp_julianDay = jd,
          pp_color = pc_color constants\<rparr>)"

definition calculatePlanetPosition :: "string \<Rightarrow> real \<Rightarrow> error + planet_position" where
  "calculatePlanetPosition planet jd =
     (case PLANETARY_CONSTANTS planet of
        None \<Rightarrow> Inl (UnknownPlanet planet)
      | Some constants \<Rightarrow> Inr (position_from_constants constants planet jd))"

section \<open>houses.js\<close>

record house =
  cusp :: nat
  h_longitude :: real
  h_sign :: real
  h_system :: string

definition calculateMC :: "real \<Rightarrow> real \<Rightarrow> real" where
  "calculateMC lst epsilon =
     (let lstRad = degreesToRadians lst;
          epsRad = degreesToRadians epsilon;
          mc = Math_atan2 (sin lstRad) (cos lstRad * cos epsRad)
      in normalizeAngle (radiansToDegrees mc))"

definition calculateAscendant :: "real \<Rightarrow> real \<Rightarrow> real \<Rightarrow> real" where
  "calculateAscendant lst latitude epsilon =
     (let lstRad = degreesToRadians lst;
          latRad = degreesToRadians latitude;
          epsRad = degreesToRadians epsilon;
          numerator = - cos lstRad;
          denominator = sin lstRad * cos epsRad + tan latRad * sin epsRad;
          asc = Math_atan2 numerator denominator
      in normalizeAngle (radiansToDegrees asc))"

definition calculateWholeSignHouses :: "real \<Rightarrow> house list" where
  "calculateWholeSignHouses ascendant =
     (let ascSign = Math_floor (ascendant / 30)
      in map (\<lambda>i. let houseSign = js_rem (ascSign + real i) 12
                  in \<lparr>cusp = i + 1, h_longitude = houseSign * 30,
                      h_sign = Math_floor houseSign, h_system = ''Whole Sign''\<rparr>)
             [0..<12])"

definition calculateEqualHouses :: "real \<Rightarrow> house list" where
  "calculateEqualHouses ascendant =
     map (\<lambda>i. let longitude = normalizeAngle (ascendant + real i * 30)
              in \<lparr>cusp = i + 1, h_longitude = longitude,
                  h_sign = Math_floor (longitude / 30), h_system = ''Equal''\<rparr>)
         [0..<12]"

definition getArc :: "real \<Rightarrow> real \<Rightarrow> real" where
  "getArc start end = (let arc = end - start in if arc < 0 then arc + 360 else arc)"

definition porphyry_house :: "nat \<Rightarrow> real \<Rightarrow> house" where
  "porphyry_house c longitude =
     \<lparr>cusp = c, h_longitude = longitude, h_sign = Math_floor (longitude / 30),
      h_system = ''Porphyry''\<rparr>"

text \<open>
  The twelve \<open>houses.push\<close> calls of \<open>calculatePorphyryHouses\<close>, in the order of the
  source, followed by its (stable) sort on the cusp number. The fourth quadrant is
  computed with \<open>arc3\<close>, as the source has it.
\<close>

definition calculatePorphyryHouses :: "real \<Rightarrow> real \<Rightarrow> house list" where
  "calculatePorphyryHouses ascendant mc =
     (let descendant = normalizeAngle (ascendant + 180);
          ic = normalizeAngle (mc + 180);
          arc1 = getArc ascendant mc / 3;
          arc2 = getArc mc descendant / 3;
          arc3 = getArc descendant ic / 3;
          houses =
            [porphyry_house 1 ascendant,
             porphyry_house 12 (normalizeAngle (ascendant + arc1 * 2)),
             porphyry_house 11 (normalizeAngle (ascendant + arc1)),
             porphyry_house 10 mc,
             porphyry_house 9 (normalizeAngle (mc + arc2 * 2)),
             porphyry_house 8 (normalizeAngle (mc + arc2)),
             porphyry_house 7 descendant,
             porphyry_house 6 (normalizeAngle (descendant + arc3 * 2)),
             porphyry_house 5 (normalizeAngle (descendant + arc3)),
             porphyry_house 4 ic,
             porphyry_house 3 (normalizeAngle (ic + arc3 * 2)),
             porphyry_house 2 (normalizeAngle (ic + arc3))]
      in sort_key cusp houses)"

text \<open>
  The specification's Porphyry system, in its own words: each of the four quadrants
  \<open>asc \<rightarrow> mc\<close>, \<open>mc \<rightarrow> desc\<close>, \<open>desc \<rightarrow> ic\<close>, \<open>ic \<rightarrow> asc\<close> is cut in three with that
  quadrant's own arc \<open>((end - start) mod 360) / 3\<close>; cusps 1, 10, 7, 4 are the quadrant
  starts, and the two remaining cusps of a quadrant lie one and two arcs past its start
  (the cusp numbers of the intermediate cusps are those the source gives them).
\<close>

definition spec_arc :: "real \<Rightarrow> real \<Rightarrow> real" where
  "spec_arc start end = (end - start - 360 * of_int \<lfloor>(end - start) / 360\<rfloor>) / 3"

definition porphyry_spec :: "real \<Rightarrow> real \<Rightarrow> nat \<Rightarrow> real" where
  "porphyry_spec asc mc c =
     (let desc = normalizeAngle (asc + 180);
          ic = normalizeAngle (mc + 180)
      in if c = 1 then asc
         else if c = 11 then normalizeAngle (asc + spec_arc asc mc)
         else if c = 12 then normalizeAngle (asc + 2 * spec_arc asc mc)
         else if c = 10 then mc
         else if c = 8 then normalizeAngle (mc + spec_arc mc desc)
         else if c = 9 then normalizeAngle (mc + 2 * spec_arc mc desc)
         else if c = 7 then desc
         else if c = 5 then normalizeAngle (desc + spec_arc desc ic)
         else if c = 6 then normalizeAngle (desc + 2 * spec_arc desc ic)
         else if c = 4 then ic
         else if c = 2 then normalizeAngle (ic + spec_arc ic asc)
         else normalizeAngle (ic + 2 * spec_arc ic asc))"

definition toLowerCase :: "string \<Rightarrow> string" where
  "toLowerCase s =
     map (\<lambda>c. if (65::nat) \<le> of_char c \<and> of_char c \<le> (90::nat)
              then char_of (of_char c + (32::nat)) else c) s"

record house_data =
  hd_ascendant :: real
  hd_descendant :: real
  hd_mc :: real
  hd_ic :: real
  hd_lst :: real
  hd_epsilon :: real
  hd_houses :: "house list"
  hd_system :: string

definition calculateHouses :: "real \<Rightarrow> real \<Rightarrow> real \<Rightarrow> string \<Rightarrow> house_data" where
  "calculateHouses jd latitude longitude system =
     (let lst = calculateLST jd longitude;
          epsilon = calculateObliquity jd;
          mc = calculateMC lst epsilon;
          ascendant = calculateAscendant lst latitude epsilon;
          descendant = normalizeAngle (ascendant + 180);
          ic = normalizeAngle (mc + 180);
          key = toLowerCase system;
          houses =
            (if key = ''whole'' \<or> key = ''wholesign'' then calculateWholeSignHouses ascendant
             else if key = ''equal'' then calculateEqualHouses ascendant
             else calculatePorphyryHouses ascendant mc)
      in \<lparr>hd_ascendant = ascendant, hd_descendant = descendant, hd_mc = mc, hd_ic = ic,
          hd_lst = lst, hd_epsilon = epsilon, hd_houses = houses, hd_system = system\<rparr>)"

text \<open>
  The membership test of \<open>getPlanetHouse\<close> for the house at index \<open>i\<close>, whose interval
  runs from its own cusp to the cusp at index \<open>(i + 1) % houses.length\<close>; the loop
  returns the cusp number of the first index that passes, and 1 when none does.
\<close>

definition in_house :: "house list \<Rightarrow> real \<Rightarrow> nat \<Rightarrow> bool" where
  "in_house houses normalizedLon i =
     (let currentCusp = h_longitude (houses ! i);
          nextCusp = h_longitude (houses ! ((i + 1) mod length houses))
      in if currentCusp < nextCusp
         then normalizedLon \<ge> currentCusp \<and> normalizedLon < nextCusp
         else normalizedLon \<ge> currentCusp \<or> normalizedLon < nextCusp)"

definition getPlanetHouse :: "real \<Rightarrow> house list \<Rightarrow> nat" where
  "getPlanetHouse planetLongitude houses =
     (let normalizedLon = normalizeAngle planetLongitude
      in case find (in_house houses normalizedLon) [0..<length houses] of
           Some i \<Rightarrow> cusp (houses ! i)
         | None \<Rightarrow> 1)"

text \<open>
  A cusp array that is strictly increasing in array order and wraps once past 0: some
  rotation of it is strictly increasing, and every cusp is a longitude in \<open>[0, 360)\<close>.
\<close>

definition increasing_then_wrapping :: "real list \<Rightarrow> bool" where
  "increasing_then_wrapping cs \<longleftrightarrow>
     (\<exists>k \<in> set [0..<length cs]. sorted_wrt (<) (drop k cs @ take k cs)) \<and>
     (\<forall>c \<in> set cs. 0 \<le> c \<and> c < 360)"

text \<open>The same membership test, on the bare list of cusp longitudes.\<close>

definition in_arc :: "real list \<Rightarrow> real \<Rightarrow> nat \<Rightarrow> bool" where
  "in_arc cs lon i =
     (let a = cs ! i; b = cs ! ((i + 1) mod length cs)
      in if a < b then a \<le> lon \<and> lon < b else a \<le> lon \<or> lon < b)"

text \<open>An example: twelve cusps 30 degrees apart, the first at 300 degrees.\<close>

definition example_houses :: "house list" where
  "example_houses =
     map (\<lambda>(c, longitude). porphyry_house c longitude)
       (zip [1, 2, 3, 4, 5, 6, 7, 8, 9, 10, 11, 12]
            [300, 330, 0, 30, 60, 90, 120, 150, 180, 210, 240, 270])"

section \<open>moon-calculator.js\<close>

record moon_options =
  opt_latitude :: "real option"
  opt_longitude :: "real option"
  opt_elevation :: "real option"

record mean_arguments =
  ma_D :: real
  ma_M :: real
  ma_M_prime :: real
  ma_F :: real

record observer_location =
  ol_latitude :: real
  ol_longitude :: real
  ol_elevation :: real

record moon_position =
  mp_longitude :: real
  mp_meanLongitude :: real
  mp_correction :: real
  mp_meanArguments :: mean_arguments
  mp_method :: string
  mp_note :: string
  mp_parallaxCorrected :: bool
  mp_parallaxNote :: "string option"
  mp_observerLocation :: "observer_location option"

definition no_options :: moon_options where
  "no_options = \<lparr>opt_latitude = None, opt_longitude = None, opt_elevation = None\<rparr>"

text \<open>
  The first part of \<open>calculateMoonPosition\<close>, up to the object \<open>result\<close> ("basic result
  (geocentric)"), which does not look at the options.
\<close>

definition moon_basic_result :: "real \<Rightarrow> moon_position" where
  "moon_basic_result jd =
     (let T = julianCenturies jd;
          L_moon = normalizeAngle (218.3164477 + 481267.88123421 * T);
          D = normalizeAngle (297.8501921 + 445267.1114034 * T -
                0.0018819 * T * T +
                T * T * T / 545868 -
                T * T * T * T / 113065000);
          M = normalizeAngle (357.5291092 + 35999.0502909 * T -
                0.0001536 * T * T +
                T * T * T / 24490000);
          M_prime = normalizeAngle (134.9633964 + 477198.8675055 * T +
                0.0087414 * T * T +
                T * T * T / 69699 -
                T * T * T * T / 14712000);
          F = normalizeAngle (93.2720950 + 483202.0175233 * T -
                0.0036539 * T * T -
                T * T * T / 3526000 +
                T * T * T * T / 863310000);
          D_rad = degreesToRadians D;
          M_rad = degreesToRadians M;
          M_prime_rad = degreesToRadians M_prime;
          F_rad = degreesToRadians F;
          correction = 0
            + 6.288774 * sin M_prime_rad
            + 1.274027 * sin (2 * D_rad - M_prime_rad)
            + 0.658314 * sin (2 * D_rad)
            + 0.213618 * sin (2 * M_prime_rad)
            - 0.185116 * sin M_rad
            - 0.114332 * sin (2 * F_rad)
            + 0.058793 * sin (2 * (D_rad - M_prime_rad))
            + 0.057066 * sin (2 * D_rad - M_rad - M_prime_rad)
            + 0.053322 * sin (2 * D_rad + M_prime_rad)
            + 0.045758 * sin (2 * D_rad - M_rad);
          longitude = normalizeAngle (L_moon + correction)
      in \<lparr>mp_longitude = longitude, mp_meanLongitude = L_moon,
          mp_correction = correction,
          mp_meanArguments = \<lparr>ma_D = D, ma_M = M, ma_M_prime = M_prime, ma_F = F\<rparr>,
          mp_method = ''J2000-ELP2000-simplified'',
          mp_note = ''Geocentric position using main periodic terms from ELP2000 theory'',
          mp_parallaxCorrected = False,
          mp_parallaxNote = None, mp_observerLocation = None\<rparr>)"

text \<open>
  The second part: when the options give both a latitude and a longitude, two advisory
  fields are added to \<open>result\<close>. In that branch the source also computes the local
  sidereal time and two constants and uses none of them.
\<close>

definition calculateMoonPosition :: "real \<Rightarrow> moon_options \<Rightarrow> moon_position" where
  "calculateMoonPosition jd options =
     (let result = moon_basic_result jd
      in case (opt_latitude options, opt_longitude options) of
           (Some latitude, Some longitude) \<Rightarrow>
             (let lst = calculateLST jd longitude
              in result\<lparr>mp_parallaxNote :=
                          Some ''Parallax correction available but requires full coordinate transformation'',
                        mp_observerLocation :=
                          Some \<lparr>ol_latitude = latitude, ol_longitude = longitude,
                                ol_elevation = (case opt_elevation options of
                                                  None \<Rightarrow> 0 | Some el \<Rightarrow> el)\<rparr>\<rparr>)
         | _ \<Rightarrow> result)"

section \<open>ephemeris-browser.js\<close>

text \<open>
  The data modules \<open>../data/ephemeris_*.js\<close> are not part of the sources at hand: the
  table \<open>EPHEMERIS_MODULES\<close> is a parameter of the model, a map from body names to
  lists of raw records. The fields \<open>JD\<close> and \<open>Deg\<close> of a raw record hold what
  \<open>parseFloat\<close> makes of them, \<open>None\<close> being NaN.
\<close>

record raw_record =
  raw_JD :: "real option"
  raw_Sign :: string
  raw_Deg :: "real option"
  raw_Date_UT :: string

record sample =
  s_jd :: real
  s_longitude :: real
  s_sign :: string
  s_degInSign :: real
  s_date :: string

type_synonym modules = "string \<rightharpoonup> raw_record list"
type_synonym cache = "string \<rightharpoonup> sample list"

definition SIGN_TO_LONGITUDE :: "string \<rightharpoonup> real" where
  "SIGN_TO_LONGITUDE = map_of
     [(''Aries'', 0), (''Taurus'', 30), (''Gemini'', 60), (''Cancer'', 90),
      (''Leo'', 120), (''Virgo'', 150), (''Libra'', 180), (''Scorpio'', 210),
      (''Sagittarius'', 240), (''Capricorn'', 270), (''Aquarius'', 300), (''Pisces'', 330)]"

text \<open>
  One step of \<open>data.map(...).filter(...)\<close>: a record whose \<open>JD\<close> is NaN or whose
  longitude is negative is dropped. \<open>parseFloat(record.Deg) || 0\<close> is 0 for NaN.
\<close>

definition process_record :: "raw_record \<Rightarrow> sample option" where
  "process_record record =
     (let degInSign = (case raw_Deg record of None \<Rightarrow> 0 | Some v \<Rightarrow> v);
          longitude = (case SIGN_TO_LONGITUDE (raw_Sign record) of
                         None \<Rightarrow> 0 | Some start \<Rightarrow> start + degInSign)
      in case raw_JD record of
           None \<Rightarrow> None
         | Some jd \<Rightarrow>
             if longitude \<ge> 0
             then Some \<lparr>s_jd = jd, s_longitude = longitude, s_sign = raw_Sign record,
                        s_degInSign = degInSign, s_date = raw_Date_UT record\<rparr>
             else None)"

definition process_data :: "raw_record list \<Rightarrow> sample list" where
  "process_data data = sort_key s_jd (List.map_filter process_record data)"

text \<open>
  \<open>loadEphemerisData\<close> with its cache made explicit: the function returns the table and
  the cache after the call. A body without a module yields the empty table, which is
  not cached.
\<close>

definition loadEphemerisData :: "modules \<Rightarrow> cache \<Rightarrow> string \<Rightarrow> sample list \<times> cache" where
  "loadEphemerisData EPHEMERIS_MODULES ephemerisCache body =
     (case ephemerisCache body of
        Some cached \<Rightarrow> (cached, ephemerisCache)
      | None \<Rightarrow>
          (case EPHEMERIS_MODULES body of
             None \<Rightarrow> ([], ephemerisCache)
           | Some data \<Rightarrow>
               (let processed = process_data data
                in (processed, ephemerisCache(body \<mapsto> processed)))))"

definition lerp :: "real \<Rightarrow> real \<Rightarrow> real \<Rightarrow> real \<Rightarrow> real \<Rightarrow> real" where
  "lerp x0 y0 x1 y1 x = (if x1 = x0 then y0 else y0 + (y1 - y0) * ((x - x0) / (x1 - x0)))"

datatype position =
  Closest (p_longitude: real) string real
| Interpolated (p_longitude: real) real real

text \<open>The search loop for the first adjacent pair of samples that brackets \<open>jd\<close>.\<close>

fun find_surrounding :: "sample list \<Rightarrow> real \<Rightarrow> (sample \<times> sample) option" where
  "find_surrounding (before # after # rest) jd =
     (if s_jd before \<le> jd \<and> s_jd after \<ge> jd then Some (before, after)
      else find_surrounding (after # rest) jd)"
| "find_surrounding _ jd = None"

definition closest_sample :: "sample list \<Rightarrow> real \<Rightarrow> sample" where
  "closest_sample data jd =
     foldl (\<lambda>prev curr. if \<bar>s_jd curr - jd\<bar> < \<bar>s_jd prev - jd\<bar> then curr else prev)
       (hd data) (tl data)"

text \<open>The lookup in a loaded table: everything in \<open>getEphemerisPosition\<close> after the load.\<close>

definition lookup_position :: "sample list \<Rightarrow> real \<Rightarrow> position option" where
  "lookup_position data jd =
     (if data = [] then None
      else if jd < s_jd (hd data) \<or> jd > s_jd (last data) then None
      else case find_surrounding data jd of
             None \<Rightarrow>
               (let closest = closest_sample data jd
                in Some (Closest (s_longitude closest) (s_sign closest) (s_degInSign closest)))
           | Some (before, after) \<Rightarrow>
               (let lon1 = s_longitude before;
                    lon2 = s_longitude after;
                    (lon1, lon2) =
                       (if \<bar>lon2 - lon1\<bar> > 180
                        then (if lon2 < lon1 then (lon1, lon2 + 360) else (lon1 + 360, lon2))
                        else (lon1, lon2));
                    longitude = normalizeAngle (lerp (s_jd before) lon1 (s_jd after) lon2 jd)
                in Some (Interpolated longitude (s_jd before) (s_jd after))))"

definition getEphemerisPosition ::
  "modules \<Rightarrow> cache \<Rightarrow> string \<Rightarrow> real \<Rightarrow> position option \<times> cache" where
  "getEphemerisPosition EPHEMERIS_MODULES ephemerisCache body jd =
     (let (data, cache') = loadEphemerisData EPHEMERIS_MODULES ephemerisCache body
      in (lookup_position data jd, cache'))"

definition bodies :: "string list" where
  "bodies = [''Sun'', ''Moon'', ''Mercury'', ''Venus'', ''Mars'', ''Jupiter'', ''Saturn'',
             ''Uranus'', ''Neptune'', ''Pluto'']"

fun all_positions_loop ::
  "modules \<Rightarrow> real \<Rightarrow> string list \<Rightarrow> (string \<times> position) list \<times> cache
    \<Rightarrow> (string \<times> position) list \<times> cache" where
  "all_positions_loop EPHEMERIS_MODULES jd [] (positions, ephemerisCache) =
     (positions, ephemerisCache)"
| "all_positions_loop EPHEMERIS_MODULES jd (body # rest) (positions, ephemerisCache) =
     (if body = ''Moon''
      then all_positions_loop EPHEMERIS_MODULES jd rest (positions, ephemerisCache)
      else (case getEphemerisPosition EPHEMERIS_MODULES ephemerisCache body jd of
              (None, cache') \<Rightarrow>
                all_positions_loop EPHEMERIS_MODULES jd rest (positions, cache')
            | (Some pos, cache') \<Rightarrow>
                all_positions_loop EPHEMERIS_MODULES jd rest (positions @ [(body, pos)], cache')))"

definition getAllEphemerisPositions ::
  "modules \<Rightarrow> cache \<Rightarrow> real \<Rightarrow> (string \<times> position) list \<times> cache" where
  "getAllEphemerisPositions EPHEMERIS_MODULES ephemerisCache jd =
     all_positions_loop EPHEMERIS_MODULES jd bodies ([], ephemerisCache)"

record availability =
  av_available :: bool
  av_minJD :: "real option"
  av_maxJD :: "real option"
  av_minDate :: "string option"
  av_maxDate :: "string option"

text \<open>
  The argument \<open>jd\<close> of \<open>checkEphemerisAvailability\<close> is \<open>None\<close> when the caller passes
  NaN; every comparison with NaN is false.
\<close>

definition checkEphemerisAvailability ::
  "modules \<Rightarrow> cache \<Rightarrow> real option \<Rightarrow> availability \<times> cache" where
  "checkEphemerisAvailability EPHEMERIS_MODULES ephemerisCache jd =
     (let (sunData, cache') = loadEphemerisData EPHEMERIS_MODULES ephemerisCache ''Sun''
      in if sunData = []
         then (\<lparr>av_available = False, av_minJD = None, av_maxJD = None,
                 av_minDate = None, av_maxDate = None\<rparr>, cache')
         else (let minJD = s_jd (hd sunData);
                   maxJD = s_jd (last sunData)
               in (\<lparr>av_available = (case jd of None \<Rightarrow> False
                                        | Some t \<Rightarrow> t \<ge> minJD \<and> t \<le> maxJD),
                     av_minJD = Some minJD, av_maxJD = Some maxJD,
                     av_minDate = Some (s_date (hd sunData)),
                     av_maxDate = Some (s_date (last sunData))\<rparr>, cache')))"

text \<open>
  The cache only ever holds what \<open>loadEphemerisData\<close> stored in it: the processed table
  of the body's module.
\<close>

definition cache_ok :: "modules \<Rightarrow> cache \<Rightarrow> bool" where
  "cache_ok EPHEMERIS_MODULES ephemerisCache \<longleftrightarrow>
     (\<forall>body \<in> dom ephemerisCache.
        \<exists>data. EPHEMERIS_MODULES body = Some data \<and> ephemerisCache body = Some (process_data data))"

text \<open>
  The table of the specification's example: two adjacent samples, at \<open>jd = 0\<close> with
  longitude 350 (Pisces 20) and at \<open>jd = 10\<close> with longitude 10 (Aries 10), as the module
  of the Sun.
\<close>

definition wrap_example :: modules where
  "wrap_example =
     [''Sun'' \<mapsto>
        [\<lparr>raw_JD = Some 0, raw_Sign = ''Pisces'', raw_Deg = Some 20, raw_Date_UT = ''day 0''\<rparr>,
         \<lparr>raw_JD = Some 10, raw_Sign = ''Aries'', raw_Deg = Some 10, raw_Date_UT = ''day 10''\<rparr>]]"

definition wrap_table :: "sample list" where
  "wrap_table =
     [\<lparr>s_jd = 0, s_longitude = 350, s_sign = ''Pisces'', s_degInSign = 20, s_date = ''day 0''\<rparr>,
      \<lparr>s_jd = 10, s_longitude = 10, s_sign = ''Aries'', s_degInSign = 10, s_date = ''day 10''\<rparr>]"

section \<open>calculator-calibrated.js\<close>

text \<open>
  \<open>calculateInnerPlanet\<close> comes from \<open>inner-planets-calculator.js\<close>, which is not among
  the sources at hand. It is a parameter of the model: given a planet name and a Julian
  day it may raise an error, return nothing (\<open>None\<close>) or return a longitude with the name
  of the method.
\<close>

record inner_calc =
  ic_longitude :: real
  ic_method :: string

type_synonym inner_calculator = "string \<Rightarrow> real \<Rightarrow> error + inner_calc option"

text \<open>
  The fields of \<open>birthData\<close>. All of them are present in the model: the defaults that
  the destructuring supplies for a missing \<open>houseSystem\<close>, \<open>timezoneOffset\<close> or
  \<open>isLocalTime\<close> are the caller's to fill in, and \<open>!year\<close> on a number is \<open>year = 0\<close>.
\<close>

record birth_data =
  bd_year :: real
  bd_month :: real
  bd_day :: real
  bd_hour :: real
  bd_minute :: real
  bd_second :: real
  bd_latitude :: real
  bd_longitude :: real
  bd_houseSystem :: string
  bd_timezoneOffset :: real
  bd_isLocalTime :: bool
  bd_useJ2000 :: bool

text \<open>
  A planet of the chart. The model keeps the name, the longitude (the normalised one
  that the spread \<open>...zodiac\<close> puts in the object), the sign and degree, the source tag
  and the house; the colour and the method text are left out.
\<close>

record chart_planet =
  cp_planet :: string
  cp_longitude :: real
  cp_sign :: string
  cp_degree :: real
  cp_julianDay :: real
  cp_source :: string
  cp_house :: "nat option"

record chart_house =
  chh_cusp :: nat
  chh_longitude :: real
  chh_sign :: string
  chh_degree :: real
  chh_system :: string

record chart =
  ch_julianDay :: real
  ch_julianDayUTC :: real
  ch_deltaT :: real
  ch_ascendant :: zodiac
  ch_mc :: zodiac
  ch_descendant :: zodiac
  ch_ic :: zodiac
  ch_planets :: "chart_planet list"
  ch_houses :: "chart_house list"
  ch_houseSystem :: string
  ch_minDate :: "string option"
  ch_maxDate :: "string option"

definition J2000_JD_TT :: real where
  "J2000_JD_TT = 2451545.0"

definition planet_object :: "string \<Rightarrow> real \<Rightarrow> real \<Rightarrow> string \<Rightarrow> chart_planet" where
  "planet_object name longitude jd src =
     (let zodiac = longitudeToZodiac longitude
      in \<lparr>cp_planet = name, cp_longitude = z_longitude zodiac, cp_sign = z_sign zodiac,
          cp_degree = z_degree zodiac, cp_julianDay = jd, cp_source = src,
          cp_house = None\<rparr>)"

text \<open>
  \<open>calculateAtJD\<close> binds \<open>houses\<close> to the object that \<open>calculateHouses\<close> returns and then
  calls \<open>houses.find(...)\<close> while building its result. That object is not an array and
  has no \<open>find\<close>: once the availability check has passed and the positions are loaded,
  the call raises a \<open>TypeError\<close>, so the function never returns a chart.
\<close>

definition calculateAtJD ::
  "modules \<Rightarrow> cache \<Rightarrow> real \<Rightarrow> real \<Rightarrow> real \<Rightarrow> string \<Rightarrow> (error + chart) \<times> cache" where
  "calculateAtJD EPHEMERIS_MODULES ephemerisCache jd latitude longitude houseSystem =
     (let (availability, cache1) =
            checkEphemerisAvailability EPHEMERIS_MODULES ephemerisCache (Some jd)
      in if \<not> av_available availability
         then (Inl (EphemerisUnavailable (av_minDate availability) (av_maxDate availability)),
               cache1)
         else (let (ephemerisPositions, cache2) =
                     getAllEphemerisPositions EPHEMERIS_MODULES cache1 jd
               in (Inl (TypeError ''houses.find is not a function''), cache2)))"

text \<open>
  The loop over Mercury, Venus and Mars: a result that is not falsy is stored under the
  planet's name; an error of \<open>calculateInnerPlanet\<close> ends the whole computation.
\<close>

fun inner_planets_loop ::
  "inner_calculator \<Rightarrow> real \<Rightarrow> string list \<Rightarrow> error + (string \<times> inner_calc) list" where
  "inner_planets_loop calculateInnerPlanet jd [] = Inr []"
| "inner_planets_loop calculateInnerPlanet jd (planetName # rest) =
     (case calculateInnerPlanet planetName jd of
        Inl err \<Rightarrow> Inl err
      | Inr calc \<Rightarrow>
          (case inner_planets_loop calculateInnerPlanet jd rest of
             Inl err \<Rightarrow> Inl err
           | Inr innerPlanets \<Rightarrow>
               (case calc of
                  None \<Rightarrow> Inr innerPlanets
                | Some c \<Rightarrow> Inr ((planetName, c) # innerPlanets))))"

definition house_with_zodiac :: "house \<Rightarrow> chart_house" where
  "house_with_zodiac h =
     (let zodiac = longitudeToZodiac (h_longitude h)
      in \<lparr>chh_cusp = cusp h, chh_longitude = z_longitude zodiac, chh_sign = z_sign zodiac,
          chh_degree = z_degree zodiac, chh_system = h_system h\<rparr>)"

text \<open>
  The end of \<open>calculateBirthChart\<close>: the planets of the chart, in the order in which the
  source collects them (the ephemeris positions that are not of Mercury, Venus, Mars or
  the Moon; then the inner planets; then the Moon), and the chart built from them.
\<close>

definition collect_planets ::
  "(string \<times> position) list \<Rightarrow> (string \<times> inner_calc) list \<Rightarrow> moon_position \<Rightarrow> real
    \<Rightarrow> chart_planet list" where
  "collect_planets ephemerisPositions innerPlanets moonCalc jd =
     List.map_filter
       (\<lambda>(body, pos).
          if body \<in> set [''Mercury'', ''Venus'', ''Mars'', ''Moon'']
          then None
          else Some (planet_object body (p_longitude pos) jd ''ephemeris''))
       ephemerisPositions
     @ map (\<lambda>(planetName, calc).
              planet_object planetName (ic_longitude calc) jd ''J2000-Kepler'')
         innerPlanets
     @ [planet_object ''Moon'' (mp_longitude moonCalc) jd ''J2000-ELP2000'']"

definition assemble_chart ::
  "jd_data \<Rightarrow> availability \<Rightarrow> chart_planet list \<Rightarrow> real \<Rightarrow> real \<Rightarrow> string \<Rightarrow> chart" where
  "assemble_chart jdData availability planets latitude longitude houseSystem =
     (let jd = jd_tt jdData;
          houseData = calculateHouses jd latitude longitude houseSystem;
          planetsWithHouses =
            map (\<lambda>planet. planet\<lparr>cp_house :=
                   Some (getPlanetHouse (cp_longitude planet) (hd_houses houseData))\<rparr>)
              planets
      in \<lparr>ch_julianDay = jd_tt jdData,
          ch_julianDayUTC = jd_utc jdData,
          ch_deltaT = deltaT jdData,
          ch_ascendant = longitudeToZodiac (hd_ascendant houseData),
          ch_mc = longitudeToZodiac (hd_mc houseData),
          ch_descendant = longitudeToZodiac (hd_descendant houseData),
          ch_ic = longitudeToZodiac (hd_ic houseData),
          ch_planets = planetsWithHouses,
          ch_houses = map house_with_zodiac (hd_houses houseData),
          ch_houseSystem = houseSystem,
          ch_minDate = av_minDate availability,
          ch_maxDate = av_maxDate availability\<rparr>)"

text \<open>
  \<open>calculateBirthChart\<close>, in three parts that follow the source from top to bottom: the
  conversion of the birth time to UTC; the choice between the J2000 epoch and the given
  date; and, from the availability check on, the composition of the chart at the Julian
  day of the date.
\<close>

definition birth_utcTime :: "birth_data \<Rightarrow> utc_components" where
  "birth_utcTime birthData =
     (if bd_isLocalTime birthData \<and> bd_timezoneOffset birthData \<noteq> 0
      then localToUTC (bd_year birthData) (bd_month birthData) (bd_day birthData)
             (bd_hour birthData) (bd_minute birthData) (bd_second birthData)
             (bd_timezoneOffset birthData)
      else \<lparr>utc_year = bd_year birthData, utc_month = bd_month birthData,
            utc_day = Some (bd_day birthData), utc_hour = bd_hour birthData,
            utc_minute = bd_minute birthData, utc_second = bd_second birthData\<rparr>)"

definition chart_from_jd ::
  "inner_calculator \<Rightarrow> modules \<Rightarrow> cache \<Rightarrow> birth_data \<Rightarrow> jd_data \<Rightarrow> (error + chart) \<times> cache" where
  "chart_from_jd calculateInnerPlanet EPHEMERIS_MODULES ephemerisCache birthData jdData =
     (let jd = jd_tt jdData;
          (availability, cache1) =
            checkEphemerisAvailability EPHEMERIS_MODULES ephemerisCache (Some jd)
      in if \<not> av_available availability
         then (Inl (EphemerisUnavailable (av_minDate availability) (av_maxDate availability)),
               cache1)
         else
           (let (ephemerisPositions, cache2) =
                  getAllEphemerisPositions EPHEMERIS_MODULES cache1 jd;
                moonCalc = calculateMoonPosition jd no_options
            in case inner_planets_loop calculateInnerPlanet jd
                      [''Mercury'', ''Venus'', ''Mars''] of
                 Inl err \<Rightarrow> (Inl err, cache2)
               | Inr innerPlanets \<Rightarrow>
                   (Inr (assemble_chart jdData availability
                           (collect_planets ephemerisPositions innerPlanets moonCalc jd)
                           (bd_latitude birthData) (bd_longitude birthData)
                           (bd_houseSystem birthData)),
                    cache2)))"

text \<open>
  When \<open>localToUTC\<close> leaves the day \<open>undefined\<close>, the Julian day is NaN, the availability
  check answers "not available" and the error is raised.
\<close>

definition calculateBirthChart ::
  "inner_calculator \<Rightarrow> modules \<Rightarrow> cache \<Rightarrow> birth_data \<Rightarrow> (error + chart) \<times> cache" where
  "calculateBirthChart calculateInnerPlanet EPHEMERIS_MODULES ephemerisCache birthData =
     (let utcTime = birth_utcTime birthData
      in if (bd_year birthData = 0 \<and> bd_month birthData = 0 \<and> bd_day birthData = 0)
            \<or> bd_useJ2000 birthData
         then calculateAtJD EPHEMERIS_MODULES ephemerisCache J2000_JD_TT
                (bd_latitude birthData) (bd_longitude birthData) (bd_houseSystem birthData)
         else
           (case utc_day utcTime of
              None \<Rightarrow>
                (let (availability, cache1) =
                       checkEphemerisAvailability EPHEMERIS_MODULES ephemerisCache None
                 in (Inl (EphemerisUnavailable (av_minDate availability)
                            (av_maxDate availability)), cache1))
            | Some utcDay \<Rightarrow>
                chart_from_jd calculateInnerPlanet EPHEMERIS_MODULES ephemerisCache birthData
                  (dateToJulianDayTT (utc_year utcTime) (utc_month utcTime) utcDay
                     (utc_hour utcTime) (utc_minute utcTime) (utc_second utcTime))))"

text \<open>
  The table the program works with for a body: the processed module, or the empty
  table for a body without a module. The ten bodies a chart is about are those of
  \<open>bodies\<close>.
\<close>

definition table_of :: "modules \<Rightarrow> string \<Rightarrow> sample list" where
  "table_of EPHEMERIS_MODULES body =
     (case EPHEMERIS_MODULES body of None \<Rightarrow> [] | Some data \<Rightarrow> process_data data)"

text \<open>What one round of the loop of \<open>getAllEphemerisPositions\<close> adds for a body.\<close>

definition found :: "modules \<Rightarrow> real \<Rightarrow> string \<Rightarrow> (string \<times> position) option" where
  "found EPHEMERIS_MODULES jd body =
     (if body = ''Moon'' then None
      else map_option (Pair body) (lookup_position (table_of EPHEMERIS_MODULES body) jd))"

text \<open>
  An example state of the program: every body has a module with two samples. The
  samples of Jupiter span the Julian days 2451600 to 2451700, those of every other body
  the days 2451544 to 2451546. The example input is 2000-01-01 12:00:00 UTC at latitude
  and longitude 0. For \<open>calculateInnerPlanet\<close>, which is a parameter, the example uses
  a function that always returns a result.
\<close>

definition two_samples :: "real \<Rightarrow> real \<Rightarrow> raw_record list" where
  "two_samples jd0 jd1 =
     [\<lparr>raw_JD = Some jd0, raw_Sign = ''Capricorn'', raw_Deg = Some 9.5,
       raw_Date_UT = ''first''\<rparr>,
      \<lparr>raw_JD = Some jd1, raw_Sign = ''Capricorn'', raw_Deg = Some 11.5,
       raw_Date_UT = ''last''\<rparr>]"

definition example_modules :: modules where
  "example_modules = map_of
     [(''Sun'', two_samples 2451544 2451546),
      (''Moon'', two_samples 2451544 2451546),
      (''Mercury'', two_samples 2451544 2451546),
      (''Venus'', two_samples 2451544 2451546),
      (''Mars'', two_samples 2451544 2451546),
      (''Jupiter'', two_samples 2451600 2451700),
      (''Saturn'', two_samples 2451544 2451546),
      (''Uranus'', two_samples 2451544 2451546),
      (''Neptune'', two_samples 2451544 2451546),
      (''Pluto'', two_samples 2451544 2451546)]"

definition example_inner :: inner_calculator where
  "example_inner planetName jd = Inr (Some \<lparr>ic_longitude = 0, ic_method = ''J2000-Kepler''\<rparr>)"

definition example_birth :: birth_data where
  "example_birth =
     \<lparr>bd_year = 2000, bd_month = 1, bd_day = 1, bd_hour = 12, bd_minute = 0, bd_second = 0,
      bd_latitude = 0, bd_longitude = 0, bd_houseSystem = ''porphyry'',
      bd_timezoneOffset = 0, bd_isLocalTime = False, bd_useJ2000 = False\<rparr>"

definition has_result :: "error + inner_calc option \<Rightarrow> bool" where
  "has_result r = (case r of Inr (Some calc) \<Rightarrow> True | _ \<Rightarrow> False)"

section \<open>Properties\<close>

subsection \<open>Rounding to binary64\<close>

text \<open>
  The rounding \<open>fl\<close> changes a number by at most the fraction \<open>2^-53\<close> of its magnitude and
  leaves every \<open>m * 2^j\<close> with \<open>|m| < 2^53\<close> as it is.
\<close>

lemma round_even_of_int: "round_even (of_int n) = n"
  by (simp add: round_even_def)

lemma round_even_error: "\<bar>of_int (round_even x) - x\<bar> \<le> 1 / 2"
proof -
  have "of_int \<lfloor>x\<rfloor> \<le> x" "x < of_int \<lfloor>x\<rfloor> + 1" by linarith+
  then show ?thesis unfolding round_even_def Let_def by (auto simp: abs_le_iff)
qed

lemma binade_eq:
  assumes "2 powi k \<le> \<bar>x\<bar>" "\<bar>x\<bar> < 2 powi (k + 1)"
  shows "\<lfloor>log 2 \<bar>x\<bar>\<rfloor> = k"
proof -
  have "(0::real) < 2 powi k" by simp
  then have pos: "0 < \<bar>x\<bar>" using assms(1) by linarith
  have "(2::real) powr of_int k = 2 powi k" "(2::real) powr of_int (k + 1) = 2 powi (k + 1)"
    by (simp_all add: powr_real_of_int' del: of_int_add)
  then have "(2::real) powr of_int k \<le> \<bar>x\<bar> \<and> \<bar>x\<bar> < 2 powr (of_int k + 1)"
    using assms by simp
  then show ?thesis using floor_log_eq_powr_iff [OF pos, of 2 k] by simp
qed

lemma binade_bounds:
  assumes "x \<noteq> 0"
  shows "2 powi \<lfloor>log 2 \<bar>x\<bar>\<rfloor> \<le> \<bar>x\<bar>" "\<bar>x\<bar> < 2 powi (\<lfloor>log 2 \<bar>x\<bar>\<rfloor> + 1)"
proof -
  have pos: "0 < \<bar>x\<bar>" using assms by simp
  define k where "k = \<lfloor>log 2 \<bar>x\<bar>\<rfloor>"
  have e: "(2::real) powr of_int k = 2 powi k" "(2::real) powr of_int (k + 1) = 2 powi (k + 1)"
    by (simp_all add: powr_real_of_int' del: of_int_add)
  have "(2::real) powr of_int k \<le> \<bar>x\<bar> \<and> \<bar>x\<bar> < 2 powr (of_int k + 1)"
    using floor_log_eq_powr_iff [OF pos, of 2 k] by (simp add: k_def)
  then have "2 powi k \<le> \<bar>x\<bar> \<and> \<bar>x\<bar> < 2 powi (k + 1)" using e by simp
  then show "2 powi \<lfloor>log 2 \<bar>x\<bar>\<rfloor> \<le> \<bar>x\<bar>" "\<bar>x\<bar> < 2 powi (\<lfloor>log 2 \<bar>x\<bar>\<rfloor> + 1)"
    by (simp_all add: k_def)
qed

lemma fl_binade:
  assumes "2 powi k \<le> \<bar>x\<bar>" "\<bar>x\<bar> < 2 powi (k + 1)"
  shows "fl x = of_int (round_even (x / 2 powi (k - 52))) * 2 powi (k - 52)"
proof -
  have "(0::real) < 2 powi k" by simp
  then have "0 < \<bar>x\<bar>" using assms(1) by linarith
  then have "x \<noteq> 0" by simp
  then show ?thesis by (simp add: fl_def Let_def binade_eq [OF assms])
qed

lemma fl_error_binade:
  assumes "2 powi k \<le> \<bar>x\<bar>" "\<bar>x\<bar> < 2 powi (k + 1)"
  shows "\<bar>fl x - x\<bar> \<le> 2 powi (k - 53)"
proof -
  define u :: real where "u = 2 powi (k - 52)"
  have u: "0 < u" by (simp add: u_def)
  have "\<bar>of_int (round_even (x / u)) - x / u\<bar> \<le> 1 / 2" by (rule round_even_error)
  then have "\<bar>of_int (round_even (x / u)) - x / u\<bar> * u \<le> 1 / 2 * u"
    using u by (intro mult_right_mono) simp_all
  moreover have "\<bar>of_int (round_even (x / u)) - x / u\<bar> * u = \<bar>of_int (round_even (x / u)) * u - x\<bar>"
  proof -
    have "\<bar>of_int (round_even (x / u)) - x / u\<bar> * u = \<bar>(of_int (round_even (x / u)) - x / u) * u\<bar>"
      using u by (simp only: abs_mult abs_of_pos)
    also have "(of_int (round_even (x / u)) - x / u) * u = of_int (round_even (x / u)) * u - x"
      using u by (simp add: left_diff_distrib)
    finally show ?thesis .
  qed
  moreover have "1 / 2 * u = 2 powi (k - 53)"
    by (simp add: u_def power_int_diff)
  ultimately have "\<bar>of_int (round_even (x / u)) * u - x\<bar> \<le> 2 powi (k - 53)" by simp
  then show ?thesis unfolding fl_binade [OF assms] u_def .
qed

lemma fl_error: "\<bar>fl x - x\<bar> \<le> \<bar>x\<bar> / 2 ^ 53"
proof (cases "x = 0")
  case True
  then show ?thesis by (simp add: fl_def)
next
  case False
  define k where "k = \<lfloor>log 2 \<bar>x\<bar>\<rfloor>"
  have b: "2 powi k \<le> \<bar>x\<bar>" "\<bar>x\<bar> < 2 powi (k + 1)"
    using binade_bounds [OF False] by (simp_all add: k_def)
  have "\<bar>fl x - x\<bar> \<le> 2 powi (k - 53)" using b by (rule fl_error_binade)
  also have "\<dots> = 2 powi k / 2 ^ 53" by (simp add: power_int_diff)
  also have "\<dots> \<le> \<bar>x\<bar> / 2 ^ 53" using b(1) by (simp add: divide_right_mono)
  finally show ?thesis .
qed

lemma fl_exact:
  assumes "\<bar>m\<bar> < 2 ^ 53"
  shows "fl (of_int m * 2 powi j) = of_int m * 2 powi j"
proof (cases "m = 0")
  case True
  then show ?thesis by (simp add: fl_def)
next
  case False
  define x :: real where "x = of_int m * 2 powi j"
  have x0: "x \<noteq> 0" using False by (simp add: x_def)
  define k where "k = \<lfloor>log 2 \<bar>x\<bar>\<rfloor>"
  have b: "2 powi k \<le> \<bar>x\<bar>" "\<bar>x\<bar> < 2 powi (k + 1)"
    using binade_bounds [OF x0] by (simp_all add: k_def)
  have "\<bar>x\<bar> = \<bar>of_int m\<bar> * 2 powi j" by (simp add: x_def abs_mult)
  also have "\<dots> < 2 ^ 53 * 2 powi j"
  proof -
    have "\<bar>of_int m :: real\<bar> < 2 ^ 53" using assms by (metis of_int_abs of_int_less_numeral_power_cancel_iff)
    then show ?thesis by (intro mult_strict_right_mono) simp_all
  qed
  also have "\<dots> = 2 powi (53 + j)" by (simp add: power_int_add)
  finally have "(2::real) powi k < 2 powi (53 + j)" using b(1) by linarith
  then have "k < 53 + j"
  proof -
    have "(2::real) powi (53 + j) \<le> 2 powi k" if "53 + j \<le> k"
      using that by (intro power_int_increasing) simp_all
    then show ?thesis using \<open>(2::real) powi k < 2 powi (53 + j)\<close> by fastforce
  qed
  then have n: "0 \<le> j - (k - 52)" by linarith
  have "x / 2 powi (k - 52) = of_int m * 2 powi (j - (k - 52))"
    by (simp add: x_def power_int_diff)
  also have "\<dots> = of_int m * 2 ^ nat (j - (k - 52))"
    using n by (simp add: power_int_def)
  also have "\<dots> = of_int (m * 2 ^ nat (j - (k - 52)))" by simp
  finally have "round_even (x / 2 powi (k - 52)) = m * 2 ^ nat (j - (k - 52))"
    by (simp only: round_even_of_int)
  then have "fl x = of_int (m * 2 ^ nat (j - (k - 52))) * 2 powi (k - 52)"
    using fl_binade [OF b] by simp
  also have "\<dots> = of_int m * (2 powi (j - (k - 52)) * 2 powi (k - 52))"
    using n by (simp add: power_int_def)
  also have "2 powi (j - (k - 52)) * 2 powi (k - 52) = (2::real) powi j"
    by (simp add: power_int_add [symmetric])
  finally show ?thesis by (simp add: x_def)
qed

lemma fl_int: "\<bar>n\<bar> < 2 ^ 53 \<Longrightarrow> fl (of_int n) = of_int n"
  using fl_exact [of n 0] by simp

lemma fl_dyadic: "\<bar>n\<bar> < 2 ^ 53 \<Longrightarrow> fl (of_int n / 2 ^ p) = of_int n / 2 ^ p"
  using fl_exact [of n "- int p"] by (simp add: power_int_minus field_simps)

lemma fl_zero: "fl 0 = 0"
  by (simp add: fl_def)

lemma fl_error_bound:
  assumes "\<bar>x\<bar> \<le> b" "b / 2 ^ 53 \<le> e"
  shows "\<bar>fl x - x\<bar> \<le> e"
proof -
  have "\<bar>fl x - x\<bar> \<le> \<bar>x\<bar> / 2 ^ 53" by (rule fl_error)
  also have "\<dots> \<le> b / 2 ^ 53" using assms(1) by (simp add: divide_right_mono)
  finally show ?thesis using assms(2) by linarith
qed

text \<open>
  The floor of a rounded quotient of whole numbers is the integer quotient, and so is
  the floor of a rounded number close to such a quotient that is not whole: the
  quotient is at least \<open>1 / n\<close> away from the next whole number, the rounding moves
  it by less.
\<close>

lemma floor_fl_near:
  fixes a n :: int
  assumes n: "0 < n" and nd: "a mod n \<noteq> 0"
      and near: "\<bar>x - of_int a / of_int n\<bar> \<le> \<epsilon>"
      and small: "\<epsilon> + \<bar>x\<bar> / 2 ^ 53 < 1 / of_int n"
  shows "\<lfloor>fl x\<rfloor> = a div n"
proof -
  define q where "q = a div n"
  define r where "r = a mod n"
  have a: "a = n * q + r" by (simp add: q_def r_def)
  have "0 \<le> r" "r < n" "r \<noteq> 0"
    using nd n pos_mod_sign [of n a] pos_mod_bound [of n a] by (simp_all add: r_def)
  then have r: "1 \<le> r" "r \<le> n - 1" by linarith+
  have nr: "0 < (of_int n :: real)" using n by simp
  have x: "of_int a / of_int n = of_int q + of_int r / (of_int n :: real)"
    using n by (simp add: a field_simps)
  have r1: "1 / of_int n \<le> of_int r / (of_int n :: real)"
    using r(1) nr by (simp add: divide_right_mono)
  have "of_int r \<le> (of_int n :: real) - 1" using r(2) by (metis of_int_1 of_int_diff of_int_le_iff)
  then have "of_int r / (of_int n :: real) \<le> (of_int n - 1) / of_int n"
    using nr by (simp add: divide_right_mono)
  also have "\<dots> = 1 - 1 / of_int n" using nr by (simp add: field_simps)
  finally have r2: "of_int r / (of_int n :: real) \<le> 1 - 1 / of_int n" .
  have e: "\<bar>fl x - x\<bar> \<le> \<bar>x\<bar> / 2 ^ 53" by (rule fl_error)
  have "of_int q < fl x" "fl x < of_int q + 1"
    using e near small x r1 r2 by linarith+
  then show ?thesis unfolding q_def [symmetric] by (simp add: floor_eq_iff)
qed

lemma floor_fl_ratio:
  fixes a n :: int
  assumes n: "0 < n" and a: "\<bar>a\<bar> < 2 ^ 53"
  shows "\<lfloor>fl (of_int a / of_int n)\<rfloor> = a div n"
proof (cases "a mod n = 0")
  case True
  then have d: "a = n * (a div n)" by (simp add: mod_eq_0_iff_dvd)
  have "\<bar>a div n\<bar> \<le> \<bar>a\<bar>"
  proof -
    have "\<bar>a\<bar> = \<bar>n\<bar> * \<bar>a div n\<bar>" using d by (metis abs_mult)
    moreover have "1 \<le> \<bar>n\<bar>" using n by simp
    ultimately show ?thesis by (metis abs_ge_zero mult_right_mono mult_1)
  qed
  then have b: "\<bar>a div n\<bar> < 2 ^ 53" using a by linarith
  have "of_int a / of_int n = (of_int (a div n) :: real)"
  proof -
    have "(of_int a :: real) = of_int n * of_int (a div n)" by (metis d of_int_mult)
    then show ?thesis using n by simp
  qed
  then show ?thesis using fl_int [OF b] by simp
next
  case False
  have nr: "0 < (of_int n :: real)" using n by simp
  have "\<bar>of_int a :: real\<bar> < 2 ^ 53" using a by (metis of_int_abs of_int_less_numeral_power_cancel_iff)
  then have "\<bar>of_int a :: real\<bar> / 2 ^ 53 < 1" by simp
  then have lt: "\<bar>of_int a :: real\<bar> / 2 ^ 53 / of_int n < 1 / of_int n"
    using nr by (rule divide_strict_right_mono)
  have eq: "\<bar>of_int a / of_int n :: real\<bar> / 2 ^ 53 = \<bar>of_int a :: real\<bar> / 2 ^ 53 / of_int n"
  proof -
    have "\<bar>of_int n :: real\<bar> = of_int n" using nr by simp
    then show ?thesis by (simp add: mult.commute)
  qed
  have "0 + \<bar>of_int a / of_int n :: real\<bar> / 2 ^ 53 < 1 / of_int n"
    using lt by (simp only: add_0 eq)
  then show ?thesis
    by (intro floor_fl_near [OF n False, where \<epsilon> = 0]) simp_all
qed

text \<open>
  Between \<open>2^21\<close> and \<open>2^22\<close>, where the Julian Days of the years 1600 to 2400 lie, the
  binary64 numbers are the multiples of \<open>2^-31\<close> (about 40 microseconds of a day).
\<close>

lemma fl_on_grid:
  fixes n :: int
  assumes "x * 2 ^ 31 = of_int n" "\<bar>x\<bar> < 2 ^ 22"
  shows "fl x = x"
proof -
  have x: "x = of_int n / 2 ^ 31" using assms(1) by (simp add: field_simps)
  have "\<bar>of_int n :: real\<bar> = \<bar>x\<bar> * 2 ^ 31" using assms(1) by (simp add: abs_mult flip: assms(1))
  also have "\<dots> < 2 ^ 22 * 2 ^ 31" using assms(2) by (intro mult_strict_right_mono) simp_all
  finally have "\<bar>of_int n :: real\<bar> < 2 ^ 53" by simp
  then have "\<bar>n\<bar> < 2 ^ 53" by (metis of_int_abs of_int_less_numeral_power_cancel_iff)
  then show ?thesis unfolding x by (rule fl_dyadic)
qed

lemma fl_to_grid:
  assumes "2 ^ 21 \<le> x" "x < 2 ^ 22"
  shows "\<exists>n::int. fl x * 2 ^ 31 = of_int n" and "\<bar>fl x - x\<bar> \<le> 1 / 4294967296"
proof -
  have b: "2 powi 21 \<le> \<bar>x\<bar>" "\<bar>x\<bar> < 2 powi (21 + 1)" using assms by simp_all
  have "fl x = of_int (round_even (x / 2 powi (21 - 52))) * 2 powi (21 - 52)"
    using b by (rule fl_binade)
  then have "fl x * 2 ^ 31 = of_int (round_even (x / 2 powi (21 - 52)))"
    by (simp add: power_int_minus field_simps)
  then show "\<exists>n::int. fl x * 2 ^ 31 = of_int n" by blast
  have "\<bar>fl x - x\<bar> \<le> 2 powi (21 - 53)" using b by (rule fl_error_binade)
  then show "\<bar>fl x - x\<bar> \<le> 1 / 4294967296" by (simp add: power_int_minus field_simps)
qed

lemma fl_binade_21:
  assumes "2097152 \<le> x" "x < 4194304"
  shows "fl x = of_int (round_even (x * 2147483648)) / 2147483648"
proof -
  have b: "2 powi 21 \<le> \<bar>x\<bar>" "\<bar>x\<bar> < 2 powi (21 + 1)" using assms by simp_all
  have "fl x = of_int (round_even (x / 2 powi (21 - 52))) * 2 powi (21 - 52)"
    using b by (rule fl_binade)
  then show ?thesis by (simp add: power_int_minus field_simps)
qed

lemma fl_int_small:
  assumes "\<bar>n\<bar> \<le> 10000000"
  shows "fl (of_int n) = of_int n"
  by (rule fl_int) (use assms in simp)

subsection \<open>The calendar round trip\<close>











lemma div_range:
  fixes a n :: int
  assumes "0 < n"
  shows "n * (a div n) \<le> a" "a < n * (a div n) + n"
proof -
  have "a = n * (a div n) + a mod n" by simp
  moreover have "0 \<le> a mod n" "a mod n < n" using assms by simp_all
  ultimately show "n * (a div n) \<le> a" "a < n * (a div n) + n" by linarith+
qed


text \<open>
  The floors of the two functions, taken of rounded values, are the integer quotients
  of \<open>jdn_of_date\<close> and \<open>date_of_jdn\<close>.
\<close>

lemma fl_30_6001: "\<bar>fl 30.6001 - 306001 / 10000\<bar> \<le> 1 / 100000000000000"
proof -
  have "\<bar>fl (306001 / 10000) - 306001 / 10000\<bar> \<le> 1 / 100000000000000"
    by (rule fl_error_bound [where b = 32]) simp_all
  then show ?thesis by simp
qed

lemma fl_122_1: "\<bar>fl 122.1 - 1221 / 10\<bar> \<le> 1 / 10000000000000"
proof -
  have "\<bar>fl (1221 / 10) - 1221 / 10\<bar> \<le> 1 / 10000000000000"
    by (rule fl_error_bound [where b = 128]) simp_all
  then show ?thesis by simp
qed

lemma floor_fl_div100:
  assumes "\<bar>k\<bar> < 2 ^ 53"
  shows "Math_floor (fl (of_int k / 100)) = of_int (k div 100)"
  using floor_fl_ratio [of 100 k] assms by (simp add: Math_floor_def)

lemma floor_fl_div4:
  assumes "\<bar>k\<bar> < 2 ^ 53"
  shows "Math_floor (fl (of_int k / 4)) = of_int (k div 4)"
  using floor_fl_ratio [of 4 k] assms by (simp add: Math_floor_def)

lemma floor_fl_365:
  assumes "\<bar>k\<bar> < 2 ^ 40"
  shows "Math_floor (fl (365.25 * of_int k)) = of_int ((1461 * k) div 4)"
proof -
  have "\<bar>1461 * k\<bar> < 2 ^ 53" using assms by (simp add: abs_mult)
  moreover have "365.25 * of_int k = (of_int (1461 * k) / of_int 4 :: real)" by simp
  ultimately show ?thesis using floor_fl_ratio [of 4 "1461 * k"] by (simp add: Math_floor_def)
qed

lemma floor_fl_alpha:
  assumes "\<bar>Z\<bar> < 2 ^ 40"
  shows "Math_floor (fl (fl (of_int Z - 1867216.25) / 36524.25)) =
         of_int ((4 * Z - 7468865) div 146097)"
proof -
  have b: "\<bar>4 * Z - 7468865\<bar> < 2 ^ 53" using assms by simp
  have e: "of_int Z - 1867216.25 = (of_int (4 * Z - 7468865) / 2 ^ 2 :: real)" by simp
  have "fl (of_int Z - 1867216.25) = fl (of_int (4 * Z - 7468865) / 2 ^ 2)" by (simp only: e)
  also have "\<dots> = of_int (4 * Z - 7468865) / 2 ^ 2" using b by (rule fl_dyadic)
  finally have f: "fl (of_int Z - 1867216.25) = of_int (4 * Z - 7468865) / 2 ^ 2" .
  have g: "of_int (4 * Z - 7468865) / 2 ^ 2 / 36524.25 = (of_int (4 * Z - 7468865) / of_int 146097 :: real)"
    by simp
  have "\<lfloor>fl (fl (of_int Z - 1867216.25) / 36524.25)\<rfloor> = (4 * Z - 7468865) div 146097"
    unfolding f g by (rule floor_fl_ratio) (use b in simp_all)
  then show ?thesis by (simp only: Math_floor_def)
qed

lemma floor_fl_306:
  assumes "4 \<le> k" "k \<le> 15"
  shows "Math_floor (fl (fl 30.6001 * of_int k)) = of_int ((306001 * k) div 10000)"
proof -
  define c where "c = fl 30.6001"
  define x where "x = c * of_int k"
  define t :: real where "t = of_int (306001 * k) / of_int 10000"
  have c: "\<bar>c - 306001 / 10000\<bar> \<le> 1 / 100000000000000" unfolding c_def by (rule fl_30_6001)
  have kr: "4 \<le> (of_int k :: real)" "of_int k \<le> (15 :: real)" using assms by simp_all
  have "x - t = (c - 306001 / 10000) * of_int k" by (simp add: x_def t_def algebra_simps)
  then have "\<bar>x - t\<bar> = \<bar>c - 306001 / 10000\<bar> * of_int k" using kr by (simp add: abs_mult)
  also have "\<dots> \<le> 1 / 100000000000000 * 15" using c kr by (intro mult_mono) simp_all
  finally have near: "\<bar>x - t\<bar> \<le> 1 / 1000000000000" by simp
  have t: "0 \<le> t" "t \<le> 460" using kr by (simp_all add: t_def)
  have xb: "\<bar>x\<bar> \<le> 512" using near t by linarith
  have "\<bar>x\<bar> / 2 ^ 53 \<le> 512 / 2 ^ 53" using xb by (simp add: divide_right_mono)
  then have small: "1 / 1000000000000 + \<bar>x\<bar> / 2 ^ 53 < 1 / of_int 10000" by simp
  have nd: "(306001 * k) mod 10000 \<noteq> 0"
  proof -
    have "k = 4 \<or> k = 5 \<or> k = 6 \<or> k = 7 \<or> k = 8 \<or> k = 9 \<or> k = 10 \<or> k = 11
      \<or> k = 12 \<or> k = 13 \<or> k = 14 \<or> k = 15" using assms by arith
    then show ?thesis by (elim disjE) simp_all
  qed
  have "\<lfloor>fl x\<rfloor> = (306001 * k) div 10000"
    by (rule floor_fl_near [OF _ nd near [unfolded t_def] small]) simp
  then show ?thesis by (simp add: Math_floor_def c_def x_def)
qed

lemma floor_fl_E:
  assumes "123 \<le> W" "W \<le> 488"
  shows "Math_floor (fl (of_int W / fl 30.6001)) = of_int ((10000 * W) div 306001)"
proof -
  define c where "c = fl 30.6001"
  define x where "x = of_int W / c"
  define q :: real where "q = of_int (10000 * W) / of_int 306001"
  have c: "\<bar>c - 306001 / 10000\<bar> \<le> 1 / 100000000000000" unfolding c_def by (rule fl_30_6001)
  then have c30: "30 \<le> c" by linarith
  have Wr: "123 \<le> (of_int W :: real)" "of_int W \<le> (488 :: real)" using assms by simp_all
  have q: "0 \<le> q" "q \<le> 16" using Wr by (simp_all add: q_def)
  have "x - q = q * (306001 / 10000 - c) / c"
    using c30 by (simp add: x_def q_def field_simps)
  then have "\<bar>x - q\<bar> = q * \<bar>306001 / 10000 - c\<bar> / c"
    using q c30 by (simp add: abs_mult)
  also have "\<dots> \<le> 16 * (1 / 100000000000000) / 30"
    using q c c30 by (intro frac_le mult_mono) (simp_all add: abs_minus_commute)
  finally have near: "\<bar>x - q\<bar> \<le> 1 / 1000000000000" by simp
  have xb: "\<bar>x\<bar> \<le> 17" using near q by linarith
  have "\<bar>x\<bar> / 2 ^ 53 \<le> 17 / 2 ^ 53" using xb by (simp add: divide_right_mono)
  then have small: "1 / 1000000000000 + \<bar>x\<bar> / 2 ^ 53 < 1 / of_int 306001" by simp
  have nd: "(10000 * W) mod 306001 \<noteq> 0"
  proof
    assume z: "(10000 * W) mod 306001 = 0"
    define e where "e = (10000 * W) div 306001"
    have eq: "10000 * W = 306001 * e" using z by (simp add: e_def mod_eq_0_iff_dvd)
    then have "4 \<le> e" "e \<le> 15" using assms by linarith+
    then have "e = 4 \<or> e = 5 \<or> e = 6 \<or> e = 7 \<or> e = 8 \<or> e = 9 \<or> e = 10 \<or> e = 11
      \<or> e = 12 \<or> e = 13 \<or> e = 14 \<or> e = 15" by arith
    moreover have "(306001 * e) mod 10000 = 0" using eq by (metis mod_mult_self1_is_0)
    ultimately show False by (elim disjE) simp_all
  qed
  have "\<lfloor>fl x\<rfloor> = (10000 * W) div 306001"
    by (rule floor_fl_near [OF _ nd near [unfolded q_def] small]) simp
  then show ?thesis by (simp add: Math_floor_def c_def x_def)
qed

lemma floor_fl_C:
  assumes "0 \<le> B" "B \<le> 8000000"
  shows "Math_floor (fl (fl (of_int B - fl 122.1) / 365.25)) = of_int ((20 * B - 2442) div 7305)"
proof -
  define c where "c = fl 122.1"
  define x1 where "x1 = fl (of_int B - c)"
  define x where "x = x1 / 365.25"
  define q :: real where "q = of_int (20 * B - 2442) / of_int 7305"
  have c: "\<bar>c - 1221 / 10\<bar> \<le> 1 / 10000000000000" unfolding c_def by (rule fl_122_1)
  have Br: "0 \<le> (of_int B :: real)" "of_int B \<le> (8000000 :: real)"
    using assms by simp_all
  have "\<bar>of_int B - c\<bar> \<le> 8000000" using Br c by linarith
  then have "\<bar>x1 - (of_int B - c)\<bar> \<le> 1 / 100000000"
    unfolding x1_def by (rule fl_error_bound) simp
  then have x1: "\<bar>x1 - (of_int B - 1221 / 10)\<bar> \<le> 2 * (1 / 100000000)" using c by linarith
  have qa: "q = (of_int B - 1221 / 10) * (4 / 1461)" by (simp add: q_def)
  have xa: "x = x1 * (4 / 1461)" by (simp add: x_def)
  have "x - q = (x1 - (of_int B - 1221 / 10)) * (4 / 1461)" unfolding qa xa by (simp add: algebra_simps)
  then have "\<bar>x - q\<bar> = \<bar>x1 - (of_int B - 1221 / 10)\<bar> * \<bar>4 / 1461 :: real\<bar>" by (simp only: abs_mult)
  also have "\<bar>4 / 1461 :: real\<bar> = 4 / 1461" by simp
  finally have "\<bar>x - q\<bar> = \<bar>x1 - (of_int B - 1221 / 10)\<bar> * (4 / 1461)" .
  also have "\<dots> \<le> 2 * (1 / 100000000) * (4 / 1461)" using x1 by (intro mult_right_mono) simp_all
  finally have near: "\<bar>x - q\<bar> \<le> 1 / 100000000" by simp
  have x1b: "\<bar>x1\<bar> \<le> 8000000" using x1 Br by linarith
  have "\<bar>x\<bar> = \<bar>x1\<bar> * \<bar>4 / 1461 :: real\<bar>" unfolding xa by (simp only: abs_mult)
  also have "\<bar>4 / 1461 :: real\<bar> = 4 / 1461" by simp
  finally have "\<bar>x\<bar> = \<bar>x1\<bar> * (4 / 1461)" .
  also have "\<dots> \<le> 8000000 * (4 / 1461)" using x1b by (intro mult_right_mono) simp_all
  finally have xb: "\<bar>x\<bar> \<le> 8000000" by simp
  have "\<bar>x\<bar> / 2 ^ 53 \<le> 8000000 / 2 ^ 53" using xb by (simp add: divide_right_mono)
  then have small: "1 / 100000000 + \<bar>x\<bar> / 2 ^ 53 < 1 / of_int 7305" by simp
  have nd: "(20 * B - 2442) mod 7305 \<noteq> 0"
  proof
    assume "(20 * B - 2442) mod 7305 = 0"
    then have "7305 dvd 20 * B - 2442" by (simp add: mod_eq_0_iff_dvd)
    moreover have "(5::int) dvd 7305" by simp
    ultimately have "5 dvd 20 * B - 2442" by (rule dvd_trans [rotated])
    then show False by presburger
  qed
  have "\<lfloor>fl x\<rfloor> = (20 * B - 2442) div 7305"
    by (rule floor_fl_near [OF _ nd near [unfolded q_def] small]) simp
  then show ?thesis by (simp add: Math_floor_def c_def x1_def x_def)
qed

lemma Math_floor_of_int_add:
  assumes "0 \<le> F" "F < 1"
  shows "Math_floor (of_int k + F) = of_int k"
  using assms by (simp add: Math_floor_def floor_eq_iff)

text \<open>
  \<open>dateToJulianDay\<close>: the decimal day carries a rounding error below \<open>10^-13\<close>; adding it
  to the whole days rounds the sum to a multiple of \<open>2^-31\<close>, and the remaining two
  operations are exact. The result is the Julian Day Number minus one half plus a
  fraction of the day \<open>k / 2^31\<close> within \<open>2^-32 + 10^-13\<close> of the time of day.
\<close>

lemma decimalDay_fl:
  fixes d h mi s :: int
  assumes d: "1 \<le> d" "d \<le> 31" and h: "0 \<le> h" "h \<le> 23"
      and mi: "0 \<le> mi" "mi \<le> 59" and s: "0 \<le> s" "s \<le> 59"
  defines "dd \<equiv> fl (of_int d + fl (fl (of_int h + fl (fl (of_int mi + fl (of_int s / 60)) / 60)) / 24))"
  shows "\<bar>dd - (of_int d + of_int (3600 * h + 60 * mi + s) / 86400)\<bar> \<le> 1 / 10000000000000"
    and "3600 * h + 60 * mi + s = 0 \<Longrightarrow> dd = of_int d"
proof -
  define u1 where "u1 = fl (of_int s / 60)"
  define u2 where "u2 = fl (of_int mi + u1)"
  define u3 where "u3 = fl (u2 / 60)"
  define u4 where "u4 = fl (of_int h + u3)"
  define u5 where "u5 = fl (u4 / 24)"
  have dd: "dd = fl (of_int d + u5)" by (simp add: dd_def u1_def u2_def u3_def u4_def u5_def)
  define t1 :: real where "t1 = of_int s / 60"
  define t2 :: real where "t2 = of_int mi + t1"
  define t3 :: real where "t3 = t2 / 60"
  define t4 :: real where "t4 = of_int h + t3"
  define t5 :: real where "t5 = t4 / 24"
  have dr: "1 \<le> (of_int d :: real)" "of_int d \<le> (31 :: real)" using d by simp_all
  have hr: "0 \<le> (of_int h :: real)" "of_int h \<le> (23 :: real)" using h by simp_all
  have mr: "0 \<le> (of_int mi :: real)" "of_int mi \<le> (59 :: real)" using mi by simp_all
  have sr: "0 \<le> (of_int s :: real)" "of_int s \<le> (59 :: real)" using s by simp_all
  have b1: "0 \<le> t1" "t1 \<le> 1" using sr by (simp_all add: t1_def)
  have b2: "0 \<le> t2" "t2 \<le> 60" using mr b1 by (simp_all add: t2_def)
  have b3: "0 \<le> t3" "t3 \<le> 1" using b2 by (simp_all add: t3_def)
  have b4: "0 \<le> t4" "t4 \<le> 24" using hr b3 by (simp_all add: t4_def)
  have b5: "0 \<le> t5" "t5 \<le> 1" using b4 by (simp_all add: t5_def)
  have e1: "\<bar>u1 - t1\<bar> \<le> 1 / 100000000000000"
    unfolding u1_def t1_def by (rule fl_error_bound [where b = 64]) (use b1 in \<open>simp_all add: t1_def\<close>)
  have "\<bar>of_int mi + u1\<bar> \<le> 64" using mr b1 e1 by linarith
  then have "\<bar>u2 - (of_int mi + u1)\<bar> \<le> 1 / 100000000000000"
    unfolding u2_def by (rule fl_error_bound) simp
  then have e2: "\<bar>u2 - t2\<bar> \<le> 2 / 100000000000000" using e1 unfolding t2_def by linarith
  have "\<bar>u2 / 60\<bar> \<le> 64" using e2 b2 by linarith
  then have "\<bar>u3 - u2 / 60\<bar> \<le> 1 / 100000000000000"
    unfolding u3_def by (rule fl_error_bound) simp
  then have e3: "\<bar>u3 - t3\<bar> \<le> 2 / 100000000000000" using e2 unfolding t3_def by linarith
  have "\<bar>of_int h + u3\<bar> \<le> 64" using hr b3 e3 by linarith
  then have "\<bar>u4 - (of_int h + u3)\<bar> \<le> 1 / 100000000000000"
    unfolding u4_def by (rule fl_error_bound) simp
  then have e4: "\<bar>u4 - t4\<bar> \<le> 3 / 100000000000000" using e3 unfolding t4_def by linarith
  have "\<bar>u4 / 24\<bar> \<le> 64" using e4 b4 by linarith
  then have "\<bar>u5 - u4 / 24\<bar> \<le> 1 / 100000000000000"
    unfolding u5_def by (rule fl_error_bound) simp
  then have e5: "\<bar>u5 - t5\<bar> \<le> 2 / 100000000000000" using e4 unfolding t5_def by linarith
  have "\<bar>of_int d + u5\<bar> \<le> 64" using dr b5 e5 by linarith
  then have "\<bar>dd - (of_int d + u5)\<bar> \<le> 1 / 100000000000000"
    unfolding dd by (rule fl_error_bound) simp
  then have e6: "\<bar>dd - (of_int d + t5)\<bar> \<le> 3 / 100000000000000" using e5 by linarith
  have "t5 = of_int (3600 * h + 60 * mi + s) / 86400"
    by (simp add: t5_def t4_def t3_def t2_def t1_def field_simps)
  then show "\<bar>dd - (of_int d + of_int (3600 * h + 60 * mi + s) / 86400)\<bar> \<le> 1 / 10000000000000"
    using e6 by linarith
  show "dd = of_int d" if "3600 * h + 60 * mi + s = 0"
  proof -
    have z: "h = 0" "mi = 0" "s = 0" using that h mi s by linarith+
    have "\<bar>d\<bar> < 2 ^ 53" using d by simp
    then have "fl (of_int d) = of_int d" by (rule fl_int)
    then show ?thesis by (simp add: dd_def z fl_zero)
  qed
qed

lemma dateToJulianDay_fl:
  fixes y m d h mi s :: int
  assumes y: "1600 \<le> y" "y \<le> 2400" and m: "1 \<le> m" "m \<le> 12"
      and d: "1 \<le> d" "d \<le> 31" and h: "0 \<le> h" "h \<le> 23"
      and mi: "0 \<le> mi" "mi \<le> 59" and s: "0 \<le> s" "s \<le> 59"
  shows "\<exists>k::int.
           dateToJulianDay (of_int y) (of_int m) (of_int d) (of_int h) (of_int mi) (of_int s)
             = of_int (jdn_of_date y m d) - 1 / 2 + of_int k / 2 ^ 31 \<and>
           \<bar>of_int k / 2 ^ 31 - of_int (3600 * h + 60 * mi + s) / (86400 :: real)\<bar>
             \<le> 1 / 4294967296 + 1 / 10000000000000 \<and>
           (3600 * h + 60 * mi + s = 0 \<longrightarrow> k = 0)"
proof -
  define yy where "yy = (if m \<le> 2 then y - 1 else y)"
  define mm where "mm = (if m \<le> 2 then m + 12 else m)"
  define A where "A = yy div 100"
  define Bi where "Bi = 2 - A + A div 4"
  define K1 where "K1 = (1461 * (yy + 4716)) div 4"
  define K2 where "K2 = (306001 * (mm + 1)) div 10000"
  define dd where "dd = fl (of_int d + fl (fl (of_int h + fl (fl (of_int mi + fl (of_int s / 60)) / 60)) / 24))"
  define T where "T = 3600 * h + 60 * mi + s"
  have yyb: "1599 \<le> yy" "yy \<le> 2400" using y by (auto simp: yy_def)
  have mmb: "3 \<le> mm" "mm \<le> 14" using m by (auto simp: mm_def)
  have Af: "100 * A \<le> yy" "yy < 100 * A + 100"
    unfolding A_def by (rule div_range, simp)+
  have Ab: "15 \<le> A" "A \<le> 24" using Af yyb by linarith+
  define A4 where "A4 = A div 4"
  have A4f: "4 * A4 \<le> A" "A < 4 * A4 + 4"
    unfolding A4_def by (rule div_range, simp)+
  have A4b: "3 \<le> A4" "A4 \<le> 6" using A4f Ab by linarith+
  have Bb: "-30 \<le> Bi" "Bi \<le> 0" using Ab A4b unfolding Bi_def A4_def [symmetric] by linarith+
  have K1f: "4 * K1 \<le> 1461 * (yy + 4716)" "1461 * (yy + 4716) < 4 * K1 + 4"
    unfolding K1_def by (rule div_range, simp)+
  have K1b: "2300000 \<le> K1" "K1 \<le> 2600000" using K1f yyb by simp_all
  have K2f: "10000 * K2 \<le> 306001 * (mm + 1)" "306001 * (mm + 1) < 10000 * K2 + 10000"
    unfolding K2_def by (rule div_range, simp)+
  have K2b: "0 \<le> K2" "K2 \<le> 460" using K2f mmb by simp_all
  have yr: "(if (of_int m :: real) \<le> 2 then fl (of_int y - 1) else of_int y) = of_int yy"
  proof -
    have "\<bar>y - 1\<bar> < 2 ^ 53" using y by simp
    then have "fl (of_int (y - 1)) = of_int (y - 1)" by (rule fl_int)
    then show ?thesis by (simp add: yy_def)
  qed
  have mr: "(if (of_int m :: real) \<le> 2 then fl (of_int m + 12) else of_int m) = of_int mm"
  proof -
    have "\<bar>m + 12\<bar> < 2 ^ 53" using m by simp
    then have "fl (of_int (m + 12)) = of_int (m + 12)" by (rule fl_int)
    then show ?thesis by (simp add: mm_def)
  qed
  have Ar: "Math_floor (fl (of_int yy / 100)) = of_int A"
    unfolding A_def by (rule floor_fl_div100) (use yyb in simp)
  have A2: "fl (2 - of_int A) = of_int (2 - A)"
  proof -
    have "\<bar>2 - A\<bar> < 2 ^ 53" using Ab by simp
    then have "fl (of_int (2 - A)) = of_int (2 - A)" by (rule fl_int)
    then show ?thesis by simp
  qed
  have A4r: "Math_floor (fl (of_int A / 4)) = of_int (A div 4)"
    by (rule floor_fl_div4) (use Ab in simp)
  have Br: "fl (of_int (2 - A) + of_int (A div 4)) = of_int Bi"
  proof -
    have "\<bar>Bi\<bar> < 2 ^ 53" using Bb by simp
    then have "fl (of_int Bi) = of_int Bi" by (rule fl_int)
    then show ?thesis by (simp add: Bi_def)
  qed
  have Y: "fl (of_int yy + 4716) = of_int (yy + 4716)"
  proof -
    have "\<bar>yy + 4716\<bar> < 2 ^ 53" using yyb by simp
    then have "fl (of_int (yy + 4716)) = of_int (yy + 4716)" by (rule fl_int)
    then show ?thesis by simp
  qed
  have K1r: "Math_floor (fl (365.25 * of_int (yy + 4716))) = of_int K1"
    unfolding K1_def by (rule floor_fl_365) (use yyb in simp)
  have M1: "fl (of_int mm + 1) = of_int (mm + 1)"
  proof -
    have "\<bar>mm + 1\<bar> < 2 ^ 53" using mmb by simp
    then have "fl (of_int (mm + 1)) = of_int (mm + 1)" by (rule fl_int)
    then show ?thesis by simp
  qed
  have K2r: "Math_floor (fl (fl 30.6001 * of_int (mm + 1))) = of_int K2"
    unfolding K2_def by (rule floor_fl_306) (use mmb in simp_all)
  have Kr: "fl (of_int K1 + of_int K2) = of_int (K1 + K2)"
  proof -
    have "\<bar>K1 + K2\<bar> < 2 ^ 53" using K1b K2b by simp
    then have "fl (of_int (K1 + K2)) = of_int (K1 + K2)" by (rule fl_int)
    then show ?thesis by simp
  qed
  define S1 where "S1 = fl (of_int (K1 + K2) + dd)"
  have unfolded: "dateToJulianDay (of_int y) (of_int m) (of_int d) (of_int h) (of_int mi) (of_int s)
        = fl (fl (S1 + of_int Bi) - 1524.5)"
    unfolding dateToJulianDay_def Let_def yr mr Ar A2 A4r Br Y K1r M1 K2r Kr
      dd_def [symmetric] S1_def [symmetric] ..
  have dde: "\<bar>dd - (of_int d + of_int T / 86400)\<bar> \<le> 1 / 10000000000000"
    unfolding dd_def T_def by (rule decimalDay_fl(1) [OF d h mi s])
  have Tb: "0 \<le> T" "T \<le> 86399" using h mi s by (simp_all add: T_def)
  then have Tr: "0 \<le> (of_int T :: real) / 86400" "(of_int T :: real) / 86400 \<le> 1" by simp_all
  have dr: "1 \<le> (of_int d :: real)" "of_int d \<le> (31 :: real)" using d by simp_all
  have Kb: "2300000 \<le> (of_int (K1 + K2) :: real)" "(of_int (K1 + K2) :: real) \<le> 2600460"
    using K1b K2b by simp_all
  have p2: "(2::real) ^ 21 = 2097152" "(2::real) ^ 22 = 4194304" by simp_all
  have x: "2 ^ 21 \<le> of_int (K1 + K2) + dd" "of_int (K1 + K2) + dd < 2 ^ 22"
    unfolding p2 using Kb dde dr Tr by linarith+
  obtain n :: int where n: "S1 * 2 ^ 31 = of_int n"
    using fl_to_grid(1) [OF x] unfolding S1_def by blast
  have S1e: "\<bar>S1 - (of_int (K1 + K2) + dd)\<bar> \<le> 1 / 4294967296"
    unfolding S1_def by (rule fl_to_grid(2) [OF x])
  have S1b: "2300000 \<le> S1" "S1 \<le> 2600500" using S1e Kb dde dr Tr by linarith+
  have Bir: "-30 \<le> (of_int Bi :: real)" "(of_int Bi :: real) \<le> 0" using Bb by simp_all
  have S2: "fl (S1 + of_int Bi) = S1 + of_int Bi"
  proof (rule fl_on_grid)
    show "(S1 + of_int Bi) * 2 ^ 31 = of_int (n + Bi * 2 ^ 31)" using n by (simp add: algebra_simps)
    show "\<bar>S1 + of_int Bi\<bar> < 2 ^ 22" unfolding p2 using S1b Bir by linarith
  qed
  have S3: "fl (S1 + of_int Bi - 1524.5) = S1 + of_int Bi - 1524.5"
  proof (rule fl_on_grid)
    show "(S1 + of_int Bi - 1524.5) * 2 ^ 31 = of_int (n + Bi * 2 ^ 31 - 3049 * 2 ^ 30)"
      using n by (simp add: algebra_simps)
    have "\<bar>S1 + of_int Bi - 3049 / 2\<bar> < 4194304" using S1b Bir by linarith
    then show "\<bar>S1 + of_int Bi - 1524.5\<bar> < 2 ^ 22" by simp
  qed
  define k where "k = n - (K1 + K2 + d) * 2 ^ 31"
  have kS: "of_int k / 2 ^ 31 = S1 - of_int (K1 + K2 + d)"
    using n by (simp add: k_def field_simps)
  have jdn: "jdn_of_date y m d = K1 + K2 + d + Bi - 1524"
    by (simp add: jdn_of_date_def Let_def yy_def mm_def A_def Bi_def K1_def K2_def)
  have 1: "dateToJulianDay (of_int y) (of_int m) (of_int d) (of_int h) (of_int mi) (of_int s)
             = of_int (jdn_of_date y m d) - 1 / 2 + of_int k / 2 ^ 31"
    unfolding unfolded S2 S3 kS jdn by simp
  have 2: "\<bar>of_int k / 2 ^ 31 - of_int T / (86400 :: real)\<bar> \<le> 1 / 4294967296 + 1 / 10000000000000"
    unfolding kS using S1e dde by (simp only: of_int_add)
  have 3: "k = 0" if "T = 0"
  proof -
    have "dd = of_int d"
      unfolding dd_def by (rule decimalDay_fl(2) [OF d h mi s]) (use that in \<open>simp add: T_def\<close>)
    then have "S1 = fl (of_int (K1 + K2 + d))" by (simp add: S1_def)
    also have "\<dots> = of_int (K1 + K2 + d)"
      by (rule fl_int) (use K1b K2b d in simp)
    finally have "of_int k / (2 ^ 31 :: real) = 0" using kS by simp
    then show ?thesis by simp
  qed
  show ?thesis using 1 2 3 unfolding T_def by blast
qed

text \<open>
  \<open>julianDayToDate\<close>: on a Julian Day that is a multiple of \<open>2^-31\<close> every operation on
  the fraction of the day is exact, and every floor of the date part is the integer
  quotient.
\<close>

lemma julianDayToDate_fl:
  fixes Z k :: int
  assumes Z: "2299161 \<le> Z" "Z \<le> 4000000" and k: "0 \<le> k" "k < 2 ^ 31"
      and jd: "fl (jd + 0.5) = of_int Z + of_int k / 2 ^ 31"
  defines "F \<equiv> of_int k / 2 ^ 31"
  shows "julianDayToDate jd =
     (case date_of_jdn Z of (yr, mo, dy) \<Rightarrow>
        \<lparr>dc_year = of_int yr, dc_month = of_int mo, dc_day = of_int dy,
         dc_hour = Math_floor (F * 24),
         dc_minute = Math_floor ((F * 24 - Math_floor (F * 24)) * 60),
         dc_second = Math_floor (((F * 24 - Math_floor (F * 24)) * 60
                        - Math_floor ((F * 24 - Math_floor (F * 24)) * 60)) * 60)\<rparr>)"
proof -
  define alpha where "alpha = (4 * Z - 7468865) div 146097"
  define a4 where "a4 = alpha div 4"
  define A where "A = Z + 1 + alpha - a4"
  define B where "B = A + 1524"
  define C where "C = (20 * B - 2442) div 7305"
  define D where "D = (1461 * C) div 4"
  define W where "W = B - D"
  define E where "E = (10000 * W) div 306001"
  define Kf where "Kf = (306001 * E) div 10000"
  define day where "day = W - Kf"
  have alf: "146097 * alpha \<le> 4 * Z - 7468865" "4 * Z - 7468865 < 146097 * alpha + 146097"
    unfolding alpha_def by (rule div_range, simp)+
  have alb: "0 \<le> alpha" "alpha \<le> 100" using alf Z by simp_all
  have a4f: "4 * a4 \<le> alpha" "alpha < 4 * a4 + 4"
    unfolding a4_def by (rule div_range, simp)+
  have a4b: "0 \<le> a4" "a4 \<le> 100" using a4f alb by simp_all
  have Ab: "2299161 \<le> A" "A \<le> 4000200" using Z alb a4b a4f by (simp_all add: A_def)
  have Bb: "0 \<le> B" "B \<le> 8000000" using Ab by (simp_all add: B_def)
  have Cf: "7305 * C \<le> 20 * B - 2442" "20 * B - 2442 < 7305 * C + 7305"
    unfolding C_def by (rule div_range, simp)+
  have Cb: "0 \<le> C" "C \<le> 100000" using Cf Ab by (simp_all add: B_def)
  have Df: "4 * D \<le> 1461 * C" "1461 * C < 4 * D + 4"
    unfolding D_def by (rule div_range, simp)+
  have Wb: "123 \<le> W" "W \<le> 488" using Cf Df by (simp_all add: W_def)
  have Ef: "306001 * E \<le> 10000 * W" "10000 * W < 306001 * E + 306001"
    unfolding E_def by (rule div_range, simp)+
  have Eb: "4 \<le> E" "E \<le> 15" using Ef Wb by simp_all
  have Kff: "10000 * Kf \<le> 306001 * E" "306001 * E < 10000 * Kf + 10000"
    unfolding Kf_def by (rule div_range, simp)+
  have Kfb: "0 \<le> Kf" "Kf \<le> 460" using Kff Eb by simp_all
  have dayb: "-1000 \<le> day" "day \<le> 1000" using Wb Kfb by (simp_all add: day_def)
  have F: "0 \<le> F" "F < 1" using k by (simp_all add: F_def)
  have Zr: "Math_floor (of_int Z + F) = of_int Z" using F by (rule Math_floor_of_int_add)
  have Fr: "fl (of_int Z + F - of_int Z) = F"
  proof -
    have "fl F = F" by (rule fl_on_grid [where n = k]) (use F in \<open>simp_all add: F_def\<close>)
    then show ?thesis by simp
  qed
  have ge: "(of_int Z :: real) \<ge> 2299161" using Z by simp
  have alr: "Math_floor (fl (fl (of_int Z - 1867216.25) / 36524.25)) = of_int alpha"
    unfolding alpha_def by (rule floor_fl_alpha) (use Z in simp)
  have Z1: "fl (of_int Z + 1) = of_int (Z + 1)"
    using fl_int_small [of "Z + 1"] Z by simp
  have Z2: "fl (of_int (Z + 1) + of_int alpha) = of_int (Z + 1 + alpha)"
    using fl_int_small [of "Z + 1 + alpha"] Z alb by simp
  have a4r: "Math_floor (fl (of_int alpha / 4)) = of_int a4"
    unfolding a4_def by (rule floor_fl_div4) (use alb in simp)
  have Ar: "fl (of_int (Z + 1 + alpha) - of_int a4) = of_int A"
    using fl_int_small [of A] Ab by (simp add: A_def)
  have Br: "fl (of_int A + 1524) = of_int B"
    using fl_int_small [of B] Bb by (simp add: B_def)
  have Cr: "Math_floor (fl (fl (of_int B - fl 122.1) / 365.25)) = of_int C"
    unfolding C_def using Bb by (rule floor_fl_C)
  have Dr: "Math_floor (fl (365.25 * of_int C)) = of_int D"
    unfolding D_def by (rule floor_fl_365) (use Cb in simp)
  have Wr: "fl (of_int B - of_int D) = of_int W"
    using fl_int_small [of W] Wb by (simp add: W_def)
  have Er: "Math_floor (fl (of_int W / fl 30.6001)) = of_int E"
    unfolding E_def using Wb by (rule floor_fl_E)
  have Kr: "Math_floor (fl (fl 30.6001 * of_int E)) = of_int Kf"
    unfolding Kf_def using Eb by (rule floor_fl_306)
  have dayr: "fl (of_int W - of_int Kf) = of_int day"
    using fl_int_small [of day] dayb by (simp add: day_def)
  have p2: "(2::real) ^ 22 = 4194304" by simp
  have dayF: "fl (of_int day + F) = of_int day + F"
  proof (rule fl_on_grid)
    show "(of_int day + F) * 2 ^ 31 = of_int (day * 2 ^ 31 + k)" by (simp add: F_def algebra_simps)
    have "-1000 \<le> (of_int day :: real)" "(of_int day :: real) \<le> 1000" using dayb by simp_all
    then show "\<bar>of_int day + F\<bar> < 2 ^ 22" unfolding p2 using F by linarith
  qed
  have dfl: "Math_floor (of_int day + F) = of_int day" using F by (rule Math_floor_of_int_add)
  have dd: "fl (of_int day + F - of_int day) = F"
  proof -
    have "fl F = F" by (rule fl_on_grid [where n = k]) (use F in \<open>simp_all add: F_def\<close>)
    then show ?thesis by simp
  qed
  have mo: "(if (of_int E :: real) < 14 then fl (of_int E - 1) else fl (of_int E - 13))
            = of_int (if E < 14 then E - 1 else E - 13)"
    using fl_int_small [of "E - 1"] fl_int_small [of "E - 13"] Eb by simp
  have yr: "(if (of_int (if E < 14 then E - 1 else E - 13) :: real) > 2
             then fl (of_int C - 4716) else fl (of_int C - 4715))
            = of_int (if (if E < 14 then E - 1 else E - 13) > 2 then C - 4716 else C - 4715)"
    using fl_int_small [of "C - 4716"] fl_int_small [of "C - 4715"] Cb by simp
  define hh where "hh = \<lfloor>F * 24\<rfloor>"
  have hhb: "of_int hh \<le> F * 24" "F * 24 < of_int hh + 1" unfolding hh_def by linarith+
  have hr: "fl (F * 24) = F * 24"
  proof (rule fl_on_grid)
    show "F * 24 * 2 ^ 31 = of_int (24 * k)" by (simp add: F_def)
    show "\<bar>F * 24\<bar> < 2 ^ 22" unfolding p2 using F by linarith
  qed
  have hf: "Math_floor (F * 24) = of_int hh" by (simp add: Math_floor_def hh_def)
  define M where "M = (F * 24 - of_int hh) * 60"
  have Mb: "0 \<le> M" "M < 60" using hhb by (simp_all add: M_def)
  have h2: "fl (F * 24 - of_int hh) = F * 24 - of_int hh"
  proof (rule fl_on_grid)
    show "(F * 24 - of_int hh) * 2 ^ 31 = of_int (24 * k - hh * 2 ^ 31)"
      by (simp add: F_def algebra_simps)
    show "\<bar>F * 24 - of_int hh\<bar> < 2 ^ 22" unfolding p2 using hhb by linarith
  qed
  have mr: "fl ((F * 24 - of_int hh) * 60) = M"
    unfolding M_def [symmetric]
  proof (rule fl_on_grid)
    show "M * 2 ^ 31 = of_int (60 * (24 * k - hh * 2 ^ 31))"
      by (simp add: M_def F_def algebra_simps)
    show "\<bar>M\<bar> < 2 ^ 22" unfolding p2 using Mb by linarith
  qed
  define mi where "mi = \<lfloor>M\<rfloor>"
  have mib: "of_int mi \<le> M" "M < of_int mi + 1" unfolding mi_def by linarith+
  have mf: "Math_floor M = of_int mi" by (simp add: Math_floor_def mi_def)
  define S where "S = (M - of_int mi) * 60"
  have m2: "fl (M - of_int mi) = M - of_int mi"
  proof (rule fl_on_grid)
    show "(M - of_int mi) * 2 ^ 31 = of_int (60 * (24 * k - hh * 2 ^ 31) - mi * 2 ^ 31)"
      by (simp add: M_def F_def algebra_simps)
    show "\<bar>M - of_int mi\<bar> < 2 ^ 22" unfolding p2 using mib by linarith
  qed
  have sr: "fl ((M - of_int mi) * 60) = S"
    unfolding S_def [symmetric]
  proof (rule fl_on_grid)
    show "S * 2 ^ 31 = of_int (60 * (60 * (24 * k - hh * 2 ^ 31) - mi * 2 ^ 31))"
      by (simp add: S_def M_def F_def algebra_simps)
    have "0 \<le> S" "S < 60" using mib by (simp_all add: S_def)
    then show "\<bar>S\<bar> < 2 ^ 22" unfolding p2 by linarith
  qed
  have lhs: "julianDayToDate jd =
        \<lparr>dc_year = of_int (if (if E < 14 then E - 1 else E - 13) > 2 then C - 4716 else C - 4715),
         dc_month = of_int (if E < 14 then E - 1 else E - 13), dc_day = of_int day,
         dc_hour = of_int hh, dc_minute = of_int mi, dc_second = Math_floor S\<rparr>"
    unfolding julianDayToDate_def Let_def jd F_def [symmetric] Zr Fr if_P [OF ge] alr Z1 Z2 a4r Ar Br
      Cr Dr Wr Er Kr dayr dayF dfl dd mo yr hr hf h2 mr mf m2 sr ..
  have rhs: "date_of_jdn Z =
      (if (if E < 14 then E - 1 else E - 13) > 2 then C - 4716 else C - 4715,
       if E < 14 then E - 1 else E - 13, day)"
    unfolding date_of_jdn_def Let_def alpha_def [symmetric] a4_def [symmetric] A_def [symmetric]
      B_def [symmetric] C_def [symmetric] D_def [symmetric] W_def [symmetric] E_def [symmetric]
      Kf_def [symmetric] day_def [symmetric] ..
  show ?thesis unfolding lhs rhs prod.case hf M_def [symmetric] mf S_def [symmetric] ..
qed



text \<open>
  The fraction of the day that comes out of \<open>dateToJulianDay\<close> is the multiple of
  \<open>2^-31\<close> nearest to the time of day \<open>T / 86400\<close>. As \<open>2^31 / 86400 = 2^24 / 675\<close>,
  the remainder of \<open>2^24 T\<close> by 675 tells the direction of the rounding: from 1 to 337
  the fraction is rounded down and \<open>julianDayToDate\<close> finds the second before \<open>T\<close>; at 0
  the fraction is exact and from 338 on it is rounded up, and the second is \<open>T\<close>.
\<close>

lemma grid_index_nearest:
  fixes k n :: int and t :: real
  assumes "\<bar>of_int k / 2 ^ 31 - t\<bar> \<le> 1 / 4294967296 + 1 / 10000000000000"
      and "of_int n - 4993 / 10000 \<le> t * 2147483648" "t * 2147483648 \<le> of_int n + 4993 / 10000"
  shows "k = n"
proof -
  have p: "(2::real) ^ 31 = 2147483648" by simp
  have "of_int n - 1 < (of_int k :: real)" "(of_int k :: real) < of_int n + 1"
    using assms unfolding p by linarith+
  then have "of_int (n - 1) < (of_int k :: real)" "(of_int k :: real) < of_int (n + 1)" by simp_all
  then have "n - 1 < k" "k < n + 1" by (simp_all only: of_int_less_iff)
  then show ?thesis by linarith
qed





text \<open>
  Examples. Noon of 2000-01-01 is the Julian Day 2451545 exactly. The literal
  \<open>2446896.30625\<close>, by the calendar 1987-04-10 19:21:00, is rounded down to the multiple
  \<open>5254670879765299 / 2^31\<close> when one half is added, and comes back as 19:20:59.
\<close>

lemma dateToJulianDay_J2000: "dateToJulianDay 2000 1 1 12 0 0 = 2451545"
proof -
  obtain k :: int where
    kT: "\<bar>of_int k / 2 ^ 31 - of_int (3600 * 12 + 60 * 0 + 0) / (86400 :: real)\<bar>
           \<le> 1 / 4294967296 + 1 / 10000000000000"
    and r: "dateToJulianDay (of_int 2000) (of_int 1) (of_int 1) (of_int 12) (of_int 0) (of_int 0)
             = of_int (jdn_of_date 2000 1 1) - 1 / 2 + of_int k / 2 ^ 31"
    using dateToJulianDay_fl [of 2000 1 1 12 0 0] by auto
  have k: "k = 1073741824" using kT by (rule grid_index_nearest) simp_all
  have j: "jdn_of_date 2000 1 1 = 2451545" by (simp add: jdn_of_date_def Let_def)
  show ?thesis using r unfolding k j by simp
qed

lemma julianDayToDate_1987:
  "julianDayToDate 2446896.30625 =
     \<lparr>dc_year = 1987, dc_month = 4, dc_day = 10, dc_hour = 19, dc_minute = 20, dc_second = 59\<rparr>"
proof -
  have re: "round_even (2446896.80625 * 2147483648) = 5254670879765299"
    by (simp add: round_even_def Let_def)
  have "fl (2446896.30625 + 0.5) = fl 2446896.80625" by simp
  also have "\<dots> = of_int 5254670879765299 / 2147483648"
    unfolding re [symmetric] by (rule fl_binade_21) simp_all
  also have "\<dots> = of_int 2446896 + of_int 1731408691 / 2 ^ 31" by simp
  finally have half: "fl (2446896.30625 + 0.5) = of_int 2446896 + of_int 1731408691 / 2 ^ 31" .
  have d: "date_of_jdn 2446896 = (1987, 4, 10)" by (simp add: date_of_jdn_def Let_def)
  show ?thesis
    using julianDayToDate_fl [OF _ _ _ _ half] unfolding d prod.case
    by (simp add: Math_floor_def)
qed




subsection \<open>Delta-T at the segment boundaries\<close>

lemma jump_below_tenth:
  "deltaT_jump (-500) < 0.1" "deltaT_jump 500 < 0.1" "deltaT_jump 1800 < 0.1"
  "deltaT_jump 1860 < 0.1" "deltaT_jump 1900 < 0.1" "deltaT_jump 1920 < 0.1"
  "deltaT_jump 1941 < 0.1" "deltaT_jump 1961 < 0.1" "deltaT_jump 1986 < 0.1"
  "deltaT_jump 2005 < 0.1" "deltaT_jump 2050 < 0.1" "deltaT_jump 2150 < 0.1"
  by (simp_all add: deltaT_jump_def calculateDeltaT_def Let_def power_divide)

lemma jump_1600: "0.25 < deltaT_jump 1600" "deltaT_jump 1600 < 0.26"
  by (simp_all add: deltaT_jump_def calculateDeltaT_def Let_def power_divide)

lemma jump_1700: "0.16 < deltaT_jump 1700" "deltaT_jump 1700 < 0.17"
  by (simp_all add: deltaT_jump_def calculateDeltaT_def Let_def power_divide)

text \<open>
  C6, as stated, fails: 1600 is a segment boundary of \<open>calculateDeltaT\<close>, and between
  the year 1599.999 (segment 500..1600) and the year 1600 (segment 1600..1700) the value
  jumps by more than 0.25 seconds.
\<close>

theorem deltaT_jump_1600_counterexample:
  "(1600::real) \<in> set segment_boundaries \<and> \<not> deltaT_jump 1600 < 0.1"
  using jump_1600(1) by (simp add: segment_boundaries_def)

text \<open>
  C6, amended. At every segment boundary other than 1600 and 1700 the value a
  thousandth of a year below the boundary and the value at the boundary differ by less
  than 0.1 seconds; at 1600 the jump lies between 0.25 and 0.26 seconds and at 1700
  between 0.16 and 0.17 seconds.
\<close>

theorem deltaT_continuity:
  "(\<forall>B \<in> set segment_boundaries. B \<noteq> 1600 \<longrightarrow> B \<noteq> 1700 \<longrightarrow> deltaT_jump B < 0.1) \<and>
   0.25 < deltaT_jump 1600 \<and> deltaT_jump 1600 < 0.26 \<and>
   0.16 < deltaT_jump 1700 \<and> deltaT_jump 1700 < 0.17"
  using jump_below_tenth jump_1600 jump_1700 by (simp add: segment_boundaries_def)

theorem deltaT_continuity_witness:
  "(1900::real) \<in> set segment_boundaries \<and> (1900::real) \<noteq> 1600 \<and> (1900::real) \<noteq> 1700 \<and>
   deltaT_jump 1900 < 0.1"
proof -
  have m: "(1900::real) \<in> set segment_boundaries" by (simp add: segment_boundaries_def)
  from deltaT_continuity
  have "\<forall>B \<in> set segment_boundaries. B \<noteq> 1600 \<longrightarrow> B \<noteq> 1700 \<longrightarrow> deltaT_jump B < 0.1" ..
  with m have "deltaT_jump 1900 < 0.1" by simp
  with m show ?thesis by simp
qed

subsection \<open>The Kepler solver at eccentricity 0\<close>

text \<open>
  C7. With eccentricity 0 the first Newton step is \<open>dE = (M - 0 - M) / 1 = 0\<close>, which is
  below the tolerance: the loop ends at once and \<open>solveKepler M 0\<close> returns \<open>M\<close> itself,
  for every mean anomaly \<open>M\<close>, and would do so under any cap on the iterations.
\<close>

theorem solveKepler_zero_eccentricity:
  "solveKepler M 0 = M \<and> solveKepler_loop maxIterations M M 0 = M"
proof -
  have step: "solveKepler_loop (Suc k) M M 0 = M" for k
    by (simp add: tolerance_def)
  have "solveKepler_loop maxIterations M M 0 = M"
    by (cases maxIterations) (simp_all add: step del: solveKepler_loop.simps(2))
  moreover have "solveKepler M 0 = M"
    unfolding solveKepler_def numeral_eq_Suc by (rule step)
  ultimately show ?thesis by simp
qed


subsection \<open>The Moon and the observer\<close>

text \<open>
  C9. The longitude that \<open>calculateMoonPosition\<close> returns does not depend on the
  options: two calls at the same \<open>jd\<close> with any two option records (with or without an
  observer's latitude, longitude and elevation) return the same longitude, and also the
  same mean longitude, correction, mean arguments, method, note and
  \<open>parallaxCorrected\<close> flag. Only the advisory fields \<open>parallaxNote\<close> and
  \<open>observerLocation\<close> can differ.
\<close>

theorem moon_longitude_ignores_observer:
  "mp_longitude (calculateMoonPosition jd options) = mp_longitude (calculateMoonPosition jd options') \<and>
   mp_meanLongitude (calculateMoonPosition jd options) = mp_meanLongitude (calculateMoonPosition jd options') \<and>
   mp_correction (calculateMoonPosition jd options) = mp_correction (calculateMoonPosition jd options') \<and>
   mp_meanArguments (calculateMoonPosition jd options) = mp_meanArguments (calculateMoonPosition jd options') \<and>
   mp_method (calculateMoonPosition jd options) = mp_method (calculateMoonPosition jd options') \<and>
   mp_note (calculateMoonPosition jd options) = mp_note (calculateMoonPosition jd options') \<and>
   mp_parallaxCorrected (calculateMoonPosition jd options) = mp_parallaxCorrected (calculateMoonPosition jd options')"
  by (simp add: calculateMoonPosition_def Let_def split: option.split)

subsection \<open>A planet without eccentricity\<close>

lemma Moon_entry: "PLANETARY_CONSTANTS ''Moon'' = Some Moon_constants"
  by (simp add: PLANETARY_CONSTANTS_def)

lemma or_default_missing:
  "v = None \<or> v = Some 0 \<Longrightarrow> or_default v dflt = dflt"
  by (auto simp: or_default_def)

lemma or_default_Some: "dflt \<noteq> 0 \<Longrightarrow> or_default (Some dflt) dflt = dflt"
  by (simp add: or_default_def)

lemma or_default_zero: "or_default (Some (case v of None \<Rightarrow> 0 | Some p \<Rightarrow> p)) 0 = or_default v 0"
  by (simp add: or_default_def split: option.split)

lemma or_default_zero_eq: "or_default v 0 = (case v of None \<Rightarrow> 0 | Some p \<Rightarrow> p)"
  by (simp add: or_default_def split: option.split)


text \<open>
  C10. For a body that has an entry in \<open>PLANETARY_CONSTANTS\<close> whose eccentricity \<open>e\<close> is
  missing or 0, \<open>calculatePlanetPosition\<close> does not fail: it returns the position that it
  would return for the same entry with \<open>e = 0.0167\<close> and, when \<open>pi\<close> is missing, \<open>pi = 0\<close>.
  The returned longitude is the one of the Kepler orbit with eccentricity 0.0167.
\<close>

theorem missing_eccentricity_defaults:
  assumes "PLANETARY_CONSTANTS planet = Some constants"
      and "pc_e constants = None \<or> pc_e constants = Some 0"
  shows "calculatePlanetPosition planet jd =
           Inr (position_from_constants
                  (constants\<lparr>pc_e := Some 0.0167,
                             pc_pi := Some (case pc_pi constants of None \<Rightarrow> 0 | Some p \<Rightarrow> p)\<rparr>)
                  planet jd) \<and>
         pp_longitude (position_from_constants constants planet jd) =
           (let M = normalizeAngle (pc_M0 constants + pc_n constants * (jd - 2451545.0));
                E = solveKepler (degreesToRadians M) 0.0167;
                nu = 2 * Math_atan2 (sqrt (1 + 0.0167) * sin (E / 2))
                                    (sqrt (1 - 0.0167) * cos (E / 2))
            in normalizeAngle (normalizeAngle
                 (radiansToDegrees nu + (case pc_pi constants of None \<Rightarrow> 0 | Some p \<Rightarrow> p))))"
proof -
  have e: "or_default (pc_e constants) 0.0167 = 0.0167"
    using assms(2) by (rule or_default_missing)
  have e': "or_default (Some 0.0167) 0.0167 = 0.0167" by (rule or_default_Some) simp
  define c' where "c' = constants\<lparr>pc_e := Some 0.0167,
                     pc_pi := Some (case pc_pi constants of None \<Rightarrow> 0 | Some p \<Rightarrow> p)\<rparr>"
  have f: "pc_L0 c' = pc_L0 constants" "pc_L1 c' = pc_L1 constants" "pc_M0 c' = pc_M0 constants"
    "pc_n c' = pc_n constants" "pc_color c' = pc_color constants" "pc_e c' = Some 0.0167"
    "pc_pi c' = Some (case pc_pi constants of None \<Rightarrow> 0 | Some p \<Rightarrow> p)"
    by (simp_all add: c'_def)
  have "position_from_constants constants planet jd = position_from_constants c' planet jd"
    unfolding position_from_constants_def by (simp only: f e e' or_default_zero)
  then have "position_from_constants constants planet jd =
        position_from_constants
          (constants\<lparr>pc_e := Some 0.0167,
                     pc_pi := Some (case pc_pi constants of None \<Rightarrow> 0 | Some p \<Rightarrow> p)\<rparr>)
          planet jd"
    by (simp only: c'_def)
  moreover have "pp_longitude (position_from_constants constants planet jd) =
           (let M = normalizeAngle (pc_M0 constants + pc_n constants * (jd - 2451545.0));
                E = solveKepler (degreesToRadians M) 0.0167;
                nu = 2 * Math_atan2 (sqrt (1 + 0.0167) * sin (E / 2))
                                    (sqrt (1 - 0.0167) * cos (E / 2))
            in normalizeAngle (normalizeAngle
                 (radiansToDegrees nu + (case pc_pi constants of None \<Rightarrow> 0 | Some p \<Rightarrow> p))))"
    unfolding position_from_constants_def longitudeToZodiac_def
    by (simp only: e or_default_zero_eq Let_def planet_position.select_convs zodiac.select_convs)
  ultimately show ?thesis
    using assms(1) by (simp only: calculatePlanetPosition_def option.case)
qed

theorem missing_eccentricity_defaults_witness:
  "PLANETARY_CONSTANTS ''Moon'' = Some Moon_constants \<and> pc_e Moon_constants = None \<and>
   calculatePlanetPosition ''Moon'' 2451545 =
     Inr (position_from_constants (Moon_constants\<lparr>pc_e := Some 0.0167, pc_pi := Some 0\<rparr>) ''Moon'' 2451545)"
proof -
  have e: "pc_e Moon_constants = None" by (simp add: Moon_constants_def)
  have p: "pc_pi Moon_constants = None" by (simp add: Moon_constants_def)
  from e have e': "pc_e Moon_constants = None \<or> pc_e Moon_constants = Some 0" ..
  show ?thesis
    using missing_eccentricity_defaults [OF Moon_entry e', of 2451545] Moon_entry e
    by (simp add: p)
qed


subsection \<open>Ephemeris lookup\<close>

lemma normalizeAngle_range: "0 \<le> normalizeAngle x \<and> normalizeAngle x < 360"
proof (cases "0 \<le> x / 360")
  case True
  define k where "k = \<lfloor>x / 360\<rfloor>"
  have t: "Math_trunc (x / 360) = k" using True by (simp add: Math_trunc_def k_def)
  have "of_int k \<le> x / 360" "x / 360 < of_int k + 1" unfolding k_def by linarith+
  then have "360 * of_int k \<le> x" "x < 360 * of_int k + 360" by (simp_all add: field_simps)
  then have "0 \<le> js_rem x 360" "js_rem x 360 < 360"
    unfolding js_rem_def t by linarith+
  then show ?thesis by (simp add: normalizeAngle_def Let_def)
next
  case False
  define k where "k = \<lceil>x / 360\<rceil>"
  have t: "Math_trunc (x / 360) = k" using False by (simp add: Math_trunc_def k_def)
  have "x / 360 \<le> of_int k" "of_int k - 1 < x / 360" unfolding k_def by linarith+
  then have "x \<le> 360 * of_int k" "360 * of_int k - 360 < x" by (simp_all add: field_simps)
  then have "js_rem x 360 \<le> 0" "- 360 < js_rem x 360"
    unfolding js_rem_def t by linarith+
  then show ?thesis by (simp add: normalizeAngle_def Let_def)
qed

lemma sorted_process_data: "sorted (map s_jd (process_data data))"
  by (simp add: process_data_def)

lemma sorted_table_of: "sorted (map s_jd (table_of M body))"
  by (simp add: table_of_def sorted_process_data split: option.split)

lemma load_table_of:
  assumes "cache_ok M c"
  shows "fst (loadEphemerisData M c body) = table_of M body"
proof (cases "c body")
  case None
  then show ?thesis
    by (simp add: loadEphemerisData_def table_of_def Let_def split: option.split)
next
  case (Some cached)
  then have "body \<in> dom c" by auto
  with assms obtain data where "M body = Some data" "c body = Some (process_data data)"
    unfolding cache_ok_def by blast
  with Some show ?thesis by (simp add: loadEphemerisData_def table_of_def)
qed

lemma load_cache_ok:
  assumes "cache_ok M c"
  shows "cache_ok M (snd (loadEphemerisData M c body))"
proof (cases "c body")
  case (Some cached)
  then show ?thesis using assms by (simp add: loadEphemerisData_def)
next
  case None
  show ?thesis
  proof (cases "M body")
    case N: None
    then show ?thesis using assms None by (simp add: loadEphemerisData_def)
  next
    case (Some data)
    then show ?thesis using assms None
      by (auto simp: loadEphemerisData_def Let_def cache_ok_def)
  qed
qed

lemma getEphemerisPosition_table:
  assumes "cache_ok M c"
  shows "fst (getEphemerisPosition M c body jd) = lookup_position (table_of M body) jd"
    and "cache_ok M (snd (getEphemerisPosition M c body jd))"
  using load_table_of [OF assms, of body] load_cache_ok [OF assms, of body]
  by (simp_all add: getEphemerisPosition_def split_beta)

lemma sorted_hd_Min:
  assumes "sorted (map f xs)" "xs \<noteq> []"
  shows "f (hd xs) = Min (f ` set xs)"
proof -
  obtain x ys where xs: "xs = x # ys" using assms(2) by (cases xs) auto
  have "Min (f ` set xs) = f x"
    by (rule Min_eqI) (use assms(1) xs in auto)
  then show ?thesis using xs by simp
qed

lemma sorted_last_Max:
  assumes "sorted (map f xs)" "xs \<noteq> []"
  shows "f (last xs) = Max (f ` set xs)"
proof -
  obtain ys y where xs: "xs = ys @ [y]" using assms(2) by (cases xs rule: rev_cases) auto
  have "Max (f ` set xs) = f y"
    by (rule Max_eqI) (use assms(1) xs in \<open>auto simp: sorted_append\<close>)
  then show ?thesis using xs by simp
qed

lemma wrap_example_loaded:
  "cache_ok wrap_example Map.empty"
  "fst (loadEphemerisData wrap_example Map.empty ''Sun'') = wrap_table"
  by (simp_all add: cache_ok_def loadEphemerisData_def wrap_example_def wrap_table_def
        process_data_def List.map_filter_def process_record_def SIGN_TO_LONGITUDE_def Let_def)


text \<open>
  C8. Let \<open>data\<close> be the table that \<open>loadEphemerisData\<close> yields for a body (in a state
  whose cache holds only what the program stored there) and let it be non-empty. For
  every \<open>jd\<close> strictly below the least \<open>jd\<close> of the table or strictly above the
  greatest, \<open>getEphemerisPosition\<close> returns \<open>null\<close>: nothing is extrapolated.
\<close>

theorem lookup_outside_range_unavailable:
  assumes "cache_ok M c"
      and "fst (loadEphemerisData M c body) = data"
      and "data \<noteq> []"
      and "jd < Min (s_jd ` set data) \<or> Max (s_jd ` set data) < jd"
  shows "fst (getEphemerisPosition M c body jd) = None"
proof -
  have data: "data = table_of M body" using load_table_of [OF assms(1), of body] assms(2) by simp
  then have s: "sorted (map s_jd data)" by (simp add: sorted_table_of)
  have "s_jd (hd data) = Min (s_jd ` set data)" "s_jd (last data) = Max (s_jd ` set data)"
    using s assms(3) by (rule sorted_hd_Min, rule sorted_last_Max)
  then have "jd < s_jd (hd data) \<or> jd > s_jd (last data)" using assms(4) by simp
  then have "lookup_position data jd = None" using assms(3) by (auto simp: lookup_position_def)
  then show ?thesis using getEphemerisPosition_table(1) [OF assms(1), of body jd] data by simp
qed

theorem lookup_outside_range_unavailable_witness:
  "cache_ok wrap_example Map.empty \<and>
   fst (loadEphemerisData wrap_example Map.empty ''Sun'') = wrap_table \<and>
   wrap_table \<noteq> [] \<and>
   (11 < Min (s_jd ` set wrap_table) \<or> Max (s_jd ` set wrap_table) < 11) \<and>
   fst (getEphemerisPosition wrap_example Map.empty ''Sun'' 11) = None"
proof -
  have ne: "wrap_table \<noteq> []" by (simp add: wrap_table_def)
  have out: "11 < Min (s_jd ` set wrap_table) \<or> Max (s_jd ` set wrap_table) < 11"
    by (simp add: wrap_table_def)
  show ?thesis
    using lookup_outside_range_unavailable [OF wrap_example_loaded ne out]
      wrap_example_loaded ne out by simp
qed










subsection \<open>Houses\<close>

lemma normalizeAngle_id:
  assumes "0 \<le> x" "x < 360"
  shows "normalizeAngle x = x"
proof -
  have "0 \<le> x / 360" "x / 360 < 1" using assms by simp_all
  then have "\<lfloor>x / 360\<rfloor> = 0" by (simp add: floor_eq_iff)
  then have "js_rem x 360 = x" using \<open>0 \<le> x / 360\<close> by (simp add: js_rem_def Math_trunc_def)
  then show ?thesis using assms by (simp add: normalizeAngle_def Let_def)
qed

lemma in_house_arc:
  assumes "i < length houses"
  shows "in_house houses lon i = in_arc (map h_longitude houses) lon i"
proof -
  have "0 < length houses" using assms by linarith
  then have "(i + 1) mod length houses < length houses" by (rule mod_less_divisor)
  then show ?thesis using assms by (simp add: in_house_def in_arc_def Let_def)
qed

lemma in_arc_sorted_inner:
  assumes "sorted_wrt (<) r" "j + 1 < length r"
  shows "in_arc r lon j \<longleftrightarrow> r ! j \<le> lon \<and> lon < r ! (j + 1)"
proof -
  have "r ! j < r ! (j + 1)" using assms by (simp add: sorted_wrt_nth_less)
  then show ?thesis using assms(2) by (simp add: in_arc_def Let_def)
qed

lemma in_arc_sorted_last:
  assumes "sorted_wrt (<) r" "r \<noteq> []"
  shows "in_arc r lon (length r - 1) \<longleftrightarrow> r ! (length r - 1) \<le> lon \<or> lon < r ! 0"
proof -
  have "\<not> r ! (length r - 1) < r ! 0"
  proof (cases "length r - 1 = 0")
    case True
    then show ?thesis by simp
  next
    case False
    then have "r ! 0 < r ! (length r - 1)" using assms by (simp add: sorted_wrt_nth_less)
    then show ?thesis by simp
  qed
  moreover have "(length r - 1 + 1) mod length r = 0" using assms(2) by simp
  ultimately show ?thesis by (simp add: in_arc_def Let_def)
qed

lemma sorted_nth_mono_strict:
  assumes "sorted_wrt (<) (r :: real list)" "i \<le> j" "j < length r"
  shows "r ! i \<le> r ! j"
proof (cases "i = j")
  case True
  then show ?thesis by simp
next
  case False
  then have "i < j" using assms(2) by simp
  then have "r ! i < r ! j" using assms by (simp add: sorted_wrt_nth_less)
  then show ?thesis by simp
qed

lemma sorted_arc_exists:
  assumes s: "sorted_wrt (<) r" and ne: "r \<noteq> []"
  shows "\<exists>j < length r. in_arc r lon j"
proof (cases "r ! (length r - 1) \<le> lon \<or> lon < r ! 0")
  case True
  then have "in_arc r lon (length r - 1)" using in_arc_sorted_last [OF s ne] by simp
  moreover have "length r - 1 < length r" using ne by simp
  ultimately show ?thesis by blast
next
  case False
  then have lo: "r ! 0 \<le> lon" and hi: "lon < r ! (length r - 1)" by simp_all
  define S where "S = {i. i < length r \<and> r ! i \<le> lon}"
  have fin: "finite S" by (simp add: S_def)
  have "0 \<in> S" using lo ne by (simp add: S_def)
  then have Sne: "S \<noteq> {}" by blast
  define j where "j = Max S"
  have jS: "j \<in> S" unfolding j_def using fin Sne by (rule Max_in)
  then have j: "j < length r" "r ! j \<le> lon" by (simp_all add: S_def)
  have "j \<noteq> length r - 1" using j(2) hi by auto
  then have j1: "j + 1 < length r" using j(1) by linarith
  have "j + 1 \<notin> S"
  proof
    assume "j + 1 \<in> S"
    then have "j + 1 \<le> Max S" using fin by simp
    then show False by (simp add: j_def)
  qed
  then have "lon < r ! (j + 1)" using j1 by (simp add: S_def)
  then have "in_arc r lon j" using in_arc_sorted_inner [OF s j1] j(2) by simp
  then show ?thesis using j(1) by blast
qed

lemma sorted_arc_unique_aux:
  assumes s: "sorted_wrt (<) r"
      and i: "i < j" "j < length r" and a: "in_arc r lon i" "in_arc r lon j"
  shows False
proof -
  have i1: "i + 1 < length r" using i by linarith
  have ne: "r \<noteq> []" using i by auto
  from a(1) have ai: "r ! i \<le> lon" "lon < r ! (i + 1)"
    using in_arc_sorted_inner [OF s i1] by simp_all
  have le: "r ! (i + 1) \<le> r ! j" using s i by (intro sorted_nth_mono_strict) simp_all
  show False
  proof (cases "j + 1 < length r")
    case True
    then have "r ! j \<le> lon" using a(2) in_arc_sorted_inner [OF s True] by simp
    then show False using ai le by linarith
  next
    case False
    then have jl: "j = length r - 1" using i by linarith
    then have "r ! j \<le> lon \<or> lon < r ! 0"
      using a(2) in_arc_sorted_last [OF s ne] by simp
    moreover have "r ! 0 \<le> r ! i" using s i by (intro sorted_nth_mono_strict) simp_all
    ultimately show False using ai le by linarith
  qed
qed

lemma sorted_arc_unique:
  assumes "sorted_wrt (<) r" "i < length r" "j < length r" "in_arc r lon i" "in_arc r lon j"
  shows "i = j"
proof (rule ccontr)
  assume "i \<noteq> j"
  then consider "i < j" | "j < i" by linarith
  then show False
    using sorted_arc_unique_aux [OF assms(1)] assms(2-5) by cases blast+
qed

lemma in_arc_rotate:
  assumes "j < length cs"
  shows "in_arc (rotate k cs) lon j = in_arc cs lon ((k + j) mod length cs)"
proof -
  have n: "0 < length cs" using assms by linarith
  have 1: "rotate k cs ! j = cs ! ((k + j) mod length cs)" using assms by (simp add: nth_rotate)
  have "(j + 1) mod length cs < length cs" using n by simp
  then have "rotate k cs ! ((j + 1) mod length cs) = cs ! ((k + (j + 1) mod length cs) mod length cs)"
    by (simp add: nth_rotate)
  also have "(k + (j + 1) mod length cs) mod length cs = ((k + j) mod length cs + 1) mod length cs"
    by (simp add: mod_simps add.assoc)
  finally show ?thesis using 1 by (simp add: in_arc_def Let_def)
qed

lemma wrapping_arc_unique_index:
  assumes "increasing_then_wrapping cs" "cs \<noteq> []"
  shows "\<exists>!i. i < length cs \<and> in_arc cs lon i"
proof -
  let ?n = "length cs"
  have n: "0 < ?n" using assms(2) by simp
  obtain k where k: "k < ?n" and s0: "sorted_wrt (<) (drop k cs @ take k cs)"
    using assms(1) unfolding increasing_then_wrapping_def by auto
  have "rotate k cs = drop k cs @ take k cs" using k by (simp add: rotate_drop_take)
  then have s: "sorted_wrt (<) (rotate k cs)" using s0 by simp
  have ne: "rotate k cs \<noteq> []" using assms(2) by simp
  have inv: "(k + (i + ?n - k) mod ?n) mod ?n = i" if "i < ?n" for i
  proof -
    have "(k + (i + ?n - k) mod ?n) mod ?n = (k + (i + ?n - k)) mod ?n" by (simp add: mod_simps)
    also have "k + (i + ?n - k) = i + ?n" using k by simp
    finally show ?thesis using that by simp
  qed
  show ?thesis
  proof (rule ex_ex1I)
    obtain j where j: "j < ?n" "in_arc (rotate k cs) lon j"
      using sorted_arc_exists [OF s ne, of lon] by auto
    then have "in_arc cs lon ((k + j) mod ?n)" using in_arc_rotate [of j cs k lon] by simp
    moreover have "(k + j) mod ?n < ?n" using n by simp
    ultimately show "\<exists>i. i < ?n \<and> in_arc cs lon i" by blast
  next
    fix i i'
    assume i: "i < ?n \<and> in_arc cs lon i" and i': "i' < ?n \<and> in_arc cs lon i'"
    define j where "j = (i + ?n - k) mod ?n"
    define j' where "j' = (i' + ?n - k) mod ?n"
    have jn: "j < ?n" "j' < ?n" using n by (simp_all add: j_def j'_def)
    have bi: "(k + j) mod ?n = i" "(k + j') mod ?n = i'"
      using inv i i' by (simp_all add: j_def j'_def)
    have "in_arc (rotate k cs) lon j" "in_arc (rotate k cs) lon j'"
      using in_arc_rotate [of j cs k lon] in_arc_rotate [of j' cs k lon] jn bi i i' by simp_all
    then have "j = j'" using sorted_arc_unique [OF s, of j j' lon] jn by simp
    then show "i = i'" using bi by simp
  qed
qed

lemma example_houses_facts:
  "length example_houses = 12" "map cusp example_houses = [1..<13]"
  "map h_longitude example_houses = [300, 330, 0, 30, 60, 90, 120, 150, 180, 210, 240, 270]"
  by (simp_all add: example_houses_def porphyry_house_def upt_rec)

lemma example_houses_wrapping: "increasing_then_wrapping (map h_longitude example_houses)"
  unfolding increasing_then_wrapping_def example_houses_facts(3)
proof (intro conjI)
  let ?cs = "[300, 330, 0, 30, 60, 90, 120, 150, 180, 210, 240, 270 :: real]"
  have "sorted_wrt (<) (drop 2 ?cs @ take 2 ?cs)" by simp
  moreover have "(2::nat) \<in> set [0..<length ?cs]" by simp
  ultimately show "\<exists>k \<in> set [0..<length ?cs]. sorted_wrt (<) (drop k ?cs @ take k ?cs)"
    by blast
  show "\<forall>c \<in> set ?cs. 0 \<le> c \<and> c < 360" by simp
qed


lemma wrapping_distinct:
  assumes "increasing_then_wrapping cs"
  shows "distinct cs"
proof -
  obtain k where "sorted_wrt (<) (drop k cs @ take k cs)"
    using assms unfolding increasing_then_wrapping_def by auto
  then have "distinct (drop k cs @ take k cs)" by (simp only: strict_sorted_iff)
  then have "distinct (take k cs @ drop k cs)" by (simp only: distinct_append) blast
  then show ?thesis by (simp only: append_take_drop_id)
qed

lemma in_house_explicit:
  assumes len: "length houses = 12" and w: "increasing_then_wrapping (map h_longitude houses)"
      and k: "1 \<le> k" "k \<le> 12"
  shows "in_house houses lon (k - 1) \<longleftrightarrow>
           (let a = h_longitude (houses ! (k - 1)); b = h_longitude (houses ! (k mod 12))
            in (a < b \<and> a \<le> lon \<and> lon < b) \<or> (b < a \<and> (a \<le> lon \<or> lon < b)))"
proof -
  have d: "distinct (map h_longitude houses)" using w by (rule wrapping_distinct)
  have i: "k - 1 < 12" "k mod 12 < 12" "k - 1 \<noteq> k mod 12" using k by (auto simp: mod_if)
  have "(map h_longitude houses ! (k - 1) = map h_longitude houses ! (k mod 12)) = (k - 1 = k mod 12)"
    by (rule nth_eq_iff_index_eq [OF d]) (use i len in simp_all)
  then have "map h_longitude houses ! (k - 1) \<noteq> map h_longitude houses ! (k mod 12)"
    using i(3) by (simp only: simp_thms)
  moreover have "map h_longitude houses ! (k - 1) = h_longitude (houses ! (k - 1))"
    "map h_longitude houses ! (k mod 12) = h_longitude (houses ! (k mod 12))"
    using i len by (simp_all only: nth_map)
  ultimately have ne: "h_longitude (houses ! (k - 1)) \<noteq> h_longitude (houses ! (k mod 12))"
    by simp
  have "(k - 1 + 1) mod length houses = k mod 12" using k len by simp
  then show ?thesis using ne by (auto simp: in_house_def Let_def)
qed


text \<open>
  C4. Let \<open>houses\<close> be an array of 12 cusps, numbered 1 to 12 in array order, whose
  longitudes are strictly increasing in array order and wrap once past 0. For every
  longitude in \<open>[0, 360)\<close>, \<open>getPlanetHouse\<close> returns a number in 1..12; it returns \<open>k\<close>
  exactly when the longitude lies on the arc that runs from cusp \<open>k\<close> forward to the
  next cusp (cusp \<open>k + 1\<close>, and cusp 1 after cusp 12), cusp \<open>k\<close> included and the next
  cusp excluded; and exactly one of the twelve arcs holds the longitude: the arcs cover
  the circle without gap or overlap.
\<close>

theorem getPlanetHouse_partition:
  assumes "length houses = 12" and "map cusp houses = [1..<13]"
      and "increasing_then_wrapping (map h_longitude houses)"
      and "0 \<le> lon" and "lon < 360"
  shows "getPlanetHouse lon houses \<in> {1..12} \<and>
         (\<forall>k \<in> {1..12}.
            getPlanetHouse lon houses = k \<longleftrightarrow>
              (let a = h_longitude (houses ! (k - 1)); b = h_longitude (houses ! (k mod 12))
               in (a < b \<and> a \<le> lon \<and> lon < b) \<or> (b < a \<and> (a \<le> lon \<or> lon < b)))) \<and>
         (\<exists>!k. k \<in> {1..12} \<and>
              (let a = h_longitude (houses ! (k - 1)); b = h_longitude (houses ! (k mod 12))
               in (a < b \<and> a \<le> lon \<and> lon < b) \<or> (b < a \<and> (a \<le> lon \<or> lon < b))))"
proof -
  let ?cs = "map h_longitude houses"
  let ?arc = "\<lambda>k. (let a = h_longitude (houses ! (k - 1)); b = h_longitude (houses ! (k mod 12))
               in (a < b \<and> a \<le> lon \<and> lon < b) \<or> (b < a \<and> (a \<le> lon \<or> lon < b)))"
  have len: "length ?cs = 12" using assms(1) by simp
  then have ne: "?cs \<noteq> []" by auto
  have "\<exists>!i. i < length ?cs \<and> in_arc ?cs lon i"
    using assms(3) ne by (rule wrapping_arc_unique_index)
  moreover have "i < length ?cs \<and> in_arc ?cs lon i \<longleftrightarrow> i < 12 \<and> in_house houses lon i" for i
    using in_house_arc [of i houses lon] assms(1) by auto
  ultimately have uniq: "\<exists>!i. i < 12 \<and> in_house houses lon i" by simp
  then obtain i0 where i0: "i0 < 12" "in_house houses lon i0" by blast
  have nl: "normalizeAngle lon = lon" using assms(4,5) by (rule normalizeAngle_id)
  have "find (in_house houses lon) [0..<length houses] \<noteq> None"
    using i0 assms(1) by (auto simp: find_None_iff)
  then obtain i where f: "find (in_house houses lon) [0..<length houses] = Some i" by blast
  then have i: "i < 12" "in_house houses lon i"
    using assms(1) by (auto simp: find_Some_iff)
  have "map cusp houses ! i = [1..<13] ! i" using assms(2) by simp
  then have c: "cusp (houses ! i) = i + 1" using i(1) assms(1) by simp
  have g: "getPlanetHouse lon houses = i + 1"
    by (simp add: getPlanetHouse_def Let_def nl f c)
  have only: "j = i" if "j < 12" "in_house houses lon j" for j
    using uniq that i by blast
  have arc: "getPlanetHouse lon houses = k \<longleftrightarrow> ?arc k" if k: "k \<in> {1..12}" for k
  proof -
    have k': "1 \<le> k" "k \<le> 12" using k by simp_all
    have "?arc k \<longleftrightarrow> in_house houses lon (k - 1)"
      using in_house_explicit [OF assms(1,3) k', of lon] by simp
    also have "\<dots> \<longleftrightarrow> k - 1 = i"
    proof
      assume "in_house houses lon (k - 1)"
      then show "k - 1 = i" using only [of "k - 1"] k' by simp
    next
      assume "k - 1 = i"
      then show "in_house houses lon (k - 1)" using i by simp
    qed
    also have "\<dots> \<longleftrightarrow> getPlanetHouse lon houses = k" using g k' by auto
    finally show ?thesis by simp
  qed
  have rng: "getPlanetHouse lon houses \<in> {1..12}" using g i by simp
  have ex1: "\<exists>!k. k \<in> {1..12} \<and> ?arc k"
  proof (rule ex1I [of _ "getPlanetHouse lon houses"])
    show "getPlanetHouse lon houses \<in> {1..12} \<and> ?arc (getPlanetHouse lon houses)"
      using rng arc [OF rng] by simp
    fix k assume "k \<in> {1..12} \<and> ?arc k"
    then show "k = getPlanetHouse lon houses" using arc [of k] by simp
  qed
  show ?thesis using rng arc ex1 by blast
qed

theorem getPlanetHouse_partition_witness:
  "length example_houses = 12 \<and> map cusp example_houses = [1..<13] \<and>
   increasing_then_wrapping (map h_longitude example_houses) \<and> (0::real) \<le> 10 \<and> (10::real) < 360 \<and>
   (3::nat) \<in> {1..12} \<and>
   h_longitude (example_houses ! (3 - 1)) = 0 \<and> h_longitude (example_houses ! (3 mod 12)) = 30 \<and>
   getPlanetHouse 10 example_houses = 3"
proof -
  have c: "h_longitude (example_houses ! (3 - 1)) = 0" "h_longitude (example_houses ! (3 mod 12)) = 30"
    by (simp_all add: example_houses_def porphyry_house_def)
  show ?thesis
    using getPlanetHouse_partition [OF example_houses_facts(1,2) example_houses_wrapping, of 10]
      example_houses_facts(1,2) example_houses_wrapping c
    by (simp add: Let_def)
qed


subsection \<open>Porphyry houses\<close>

lemma normalizeAngle_values:
  "normalizeAngle 0 = 0" "normalizeAngle 20 = 20" "normalizeAngle 100 = 100"
  "normalizeAngle 180 = 180" "normalizeAngle 200 = 200" "normalizeAngle 260 = 260"
  "normalizeAngle 280 = 280" "normalizeAngle 300 = 300" "normalizeAngle 340 = 340"
  "normalizeAngle 380 = 20" "normalizeAngle 460 = 100"
  by (simp_all add: normalizeAngle_def js_rem_def Math_trunc_def Let_def)


text \<open>
  C1 does not hold of the code. The specification cuts the fourth quadrant, from \<open>ic\<close>
  to \<open>asc\<close>, with that quadrant's own arc \<open>((asc - ic) mod 360) / 3\<close>. The source places
  cusps 3 and 2 with \<open>arc3\<close>, the arc of the third quadrant. At \<open>ascendant = 120\<close>,
  \<open>mc = 0\<close> the code returns cusp 2 at 260 and cusp 3 at 340, where the specification's
  rule gives 280 and 20; the ten other cusps agree.
\<close>

theorem porphyry_fourth_quadrant_divergence:
  "map h_longitude (calculatePorphyryHouses 120 0)
     = [120, 260, 340, 180, 20, 100, 300, 100, 200, 0, 200, 280] \<and>
   map (porphyry_spec 120 0) [1, 2, 3, 4, 5, 6, 7, 8, 9, 10, 11, 12]
     = [120, 280, 20, 180, 20, 100, 300, 100, 200, 0, 200, 280]"
  by (simp add: calculatePorphyryHouses_def porphyry_spec_def porphyry_house_def getArc_def
        spec_arc_def Let_def normalizeAngle_values)


text \<open>
  For all angles in \<open>[0, 360)\<close> the code does what the specification says at the cusps
  1 and 4 to 12: the difference is confined to the fourth quadrant.
\<close>

lemma getArc_spec_arc:
  assumes "0 \<le> a" "a < 360" "0 \<le> b" "b < 360"
  shows "getArc a b / 3 = spec_arc a b"
proof (cases "b - a < 0")
  case True
  have "\<lfloor>(b - a) / 360\<rfloor> = - 1" using True assms by (simp add: floor_eq_iff)
  then show ?thesis using True by (simp add: getArc_def spec_arc_def Let_def)
next
  case False
  have "\<lfloor>(b - a) / 360\<rfloor> = 0" using False assms by (simp add: floor_eq_iff)
  then show ?thesis using False by (simp add: getArc_def spec_arc_def Let_def)
qed

lemma porphyry_sorted_cusps:
  "map h_longitude (calculatePorphyryHouses asc mc) =
     (let descendant = normalizeAngle (asc + 180);
          ic = normalizeAngle (mc + 180);
          arc1 = getArc asc mc / 3;
          arc2 = getArc mc descendant / 3;
          arc3 = getArc descendant ic / 3
      in [asc, normalizeAngle (ic + arc3), normalizeAngle (ic + arc3 * 2), ic,
          normalizeAngle (descendant + arc3), normalizeAngle (descendant + arc3 * 2), descendant,
          normalizeAngle (mc + arc2), normalizeAngle (mc + arc2 * 2), mc,
          normalizeAngle (asc + arc1), normalizeAngle (asc + arc1 * 2)])"
  by (simp add: calculatePorphyryHouses_def porphyry_house_def Let_def)

lemma porphyry_agrees_outside_fourth_quadrant:
  assumes "0 \<le> asc" "asc < 360" "0 \<le> mc" "mc < 360"
      and "c \<in> {1, 4, 5, 6, 7, 8, 9, 10, 11, 12}"
  shows "h_longitude (calculatePorphyryHouses asc mc ! (c - 1)) = porphyry_spec asc mc c"
proof -
  have d: "0 \<le> normalizeAngle (asc + 180)" "normalizeAngle (asc + 180) < 360"
    and i: "0 \<le> normalizeAngle (mc + 180)" "normalizeAngle (mc + 180) < 360"
    using normalizeAngle_range by simp_all
  have a: "getArc asc mc / 3 = spec_arc asc mc"
    "getArc mc (normalizeAngle (asc + 180)) / 3 = spec_arc mc (normalizeAngle (asc + 180))"
    "getArc (normalizeAngle (asc + 180)) (normalizeAngle (mc + 180)) / 3
       = spec_arc (normalizeAngle (asc + 180)) (normalizeAngle (mc + 180))"
    using assms(1-4) d i by (simp_all add: getArc_spec_arc)
  have "length (map h_longitude (calculatePorphyryHouses asc mc)) = 12"
    unfolding porphyry_sorted_cusps Let_def by simp
  then have len: "length (calculatePorphyryHouses asc mc) = 12" by simp
  have "c - 1 < 12" using assms(5) by auto
  then have "h_longitude (calculatePorphyryHouses asc mc ! (c - 1))
             = map h_longitude (calculatePorphyryHouses asc mc) ! (c - 1)"
    using len by simp
  then show ?thesis
    unfolding porphyry_sorted_cusps Let_def a using assms(5)
    by (auto simp: porphyry_spec_def Let_def mult.commute)
qed


subsection \<open>Chart composition\<close>

lemma availability_table:
  assumes "cache_ok M c"
  shows "fst (checkEphemerisAvailability M c jd) =
           (if table_of M ''Sun'' = []
            then \<lparr>av_available = False, av_minJD = None, av_maxJD = None,
                  av_minDate = None, av_maxDate = None\<rparr>
            else \<lparr>av_available = (case jd of None \<Rightarrow> False
                                   | Some t \<Rightarrow> t \<ge> s_jd (hd (table_of M ''Sun'')) \<and>
                                              t \<le> s_jd (last (table_of M ''Sun''))),
                  av_minJD = Some (s_jd (hd (table_of M ''Sun''))),
                  av_maxJD = Some (s_jd (last (table_of M ''Sun''))),
                  av_minDate = Some (s_date (hd (table_of M ''Sun''))),
                  av_maxDate = Some (s_date (last (table_of M ''Sun'')))\<rparr>)"
    and "cache_ok M (snd (checkEphemerisAvailability M c jd))"
  using load_table_of [OF assms, of "''Sun''"] load_cache_ok [OF assms, of "''Sun''"]
  by (simp_all add: checkEphemerisAvailability_def split_beta Let_def)

lemma all_positions_loop_table:
  assumes "cache_ok M c"
  shows "fst (all_positions_loop M jd bs (acc, c)) = acc @ List.map_filter (found M jd) bs \<and>
         cache_ok M (snd (all_positions_loop M jd bs (acc, c)))"
  using assms
proof (induction bs arbitrary: acc c)
  case Nil
  then show ?case by (simp add: List.map_filter_simps)
next
  case (Cons body bs)
  show ?case
  proof (cases "body = ''Moon''")
    case True
    then show ?thesis using Cons by (simp add: List.map_filter_simps found_def)
  next
    case False
    note g = getEphemerisPosition_table [OF Cons.prems, of body jd]
    obtain r c1 where r: "getEphemerisPosition M c body jd = (r, c1)" by (cases "getEphemerisPosition M c body jd")
    then have r1: "r = lookup_position (table_of M body) jd" and c1: "cache_ok M c1"
      using g by simp_all
    show ?thesis
    proof (cases r)
      case None
      then show ?thesis using False r r1 Cons.IH [OF c1]
        by (simp add: List.map_filter_simps found_def)
    next
      case (Some pos)
      then show ?thesis using False r r1 Cons.IH [OF c1, of "acc @ [(body, pos)]"]
        by (simp add: List.map_filter_simps found_def)
    qed
  qed
qed

lemma getAllEphemerisPositions_table:
  assumes "cache_ok M c"
  shows "fst (getAllEphemerisPositions M c jd) = List.map_filter (found M jd) bodies"
    and "cache_ok M (snd (getAllEphemerisPositions M c jd))"
  using all_positions_loop_table [OF assms, of jd bodies "[]"]
  by (simp_all add: getAllEphemerisPositions_def)

lemma lookup_in_range:
  assumes "data \<noteq> []" "s_jd (hd data) \<le> jd" "jd \<le> s_jd (last data)"
  shows "lookup_position data jd \<noteq> None"
  using assms by (auto simp: lookup_position_def Let_def split: option.split prod.split)

lemma cp_planet_object: "cp_planet (planet_object name longitude jd src) = name"
  by (simp add: planet_object_def Let_def)

lemma collect_planets_names:
  "map cp_planet (collect_planets ephemerisPositions innerPlanets moonCalc jd) =
     filter (\<lambda>body. body \<notin> set [''Mercury'', ''Venus'', ''Mars'', ''Moon''])
       (map fst ephemerisPositions)
     @ map fst innerPlanets @ [''Moon'']"
proof -
  have "map cp_planet
          (List.map_filter
             (\<lambda>(body, pos).
                if body \<in> set [''Mercury'', ''Venus'', ''Mars'', ''Moon'']
                then None
                else Some (planet_object body (p_longitude pos) jd ''ephemeris''))
             xs) =
        filter (\<lambda>body. body \<notin> set [''Mercury'', ''Venus'', ''Mars'', ''Moon'']) (map fst xs)" for xs
    by (induction xs) (auto simp: List.map_filter_simps cp_planet_object)
  moreover have "map cp_planet
          (map (\<lambda>(planetName, calc). planet_object planetName (ic_longitude calc) jd ''J2000-Kepler'') ys)
        = map fst ys" for ys
    by (induction ys) (auto simp: cp_planet_object)
  ultimately show ?thesis by (simp add: collect_planets_def cp_planet_object)
qed

lemma assemble_chart_names:
  "map cp_planet (ch_planets (assemble_chart jdData availability planets latitude longitude houseSystem))
     = map cp_planet planets"
  by (simp add: assemble_chart_def Let_def comp_def)

lemma assemble_chart_jd:
  "ch_julianDay (assemble_chart jdData availability planets latitude longitude houseSystem)
     = jd_tt jdData"
  by (simp add: assemble_chart_def Let_def)

lemma has_result_simps:
  "has_result (Inl err) = False" "has_result (Inr None) = False" "has_result (Inr (Some calc)) = True"
  by (simp_all add: has_result_def)

lemma inner_planets_loop_names:
  assumes "inner_planets_loop inner jd names = Inr innerPlanets"
  shows "map fst innerPlanets = filter (\<lambda>p. has_result (inner p jd)) names"
  using assms
proof (induction names arbitrary: innerPlanets)
  case Nil
  then show ?case by simp
next
  case (Cons p names)
  show ?case
  proof (cases "inner p jd")
    case (Inl err)
    then show ?thesis using Cons.prems by simp
  next
    case (Inr calc)
    then obtain rest where rest: "inner_planets_loop inner jd names = Inr rest"
      using Cons.prems by (cases "inner_planets_loop inner jd names") simp_all
    note ih = Cons.IH [OF rest]
    show ?thesis
    proof (cases calc)
      case None
      then show ?thesis using Inr rest ih Cons.prems by (simp add: has_result_simps)
    next
      case (Some c)
      then show ?thesis using Inr rest ih Cons.prems by (auto simp: has_result_simps)
    qed
  qed
qed

lemma found_filter:
  "filter P (map fst (List.map_filter (found M jd) bs)) =
   filter (\<lambda>b. P b \<and> b \<noteq> ''Moon'' \<and> lookup_position (table_of M b) jd \<noteq> None) bs"
  by (induction bs) (auto simp: List.map_filter_simps found_def split: option.split)

lemma found_names:
  "filter (\<lambda>body. body \<notin> set [''Mercury'', ''Venus'', ''Mars'', ''Moon''])
     (map fst (List.map_filter (found M jd) bodies))
   = filter (\<lambda>b. lookup_position (table_of M b) jd \<noteq> None)
       [''Sun'', ''Jupiter'', ''Saturn'', ''Uranus'', ''Neptune'', ''Pluto'']"
  unfolding found_filter by (simp add: bodies_def)

lemma calculateAtJD_fails: "calculateAtJD M c jd latitude longitude houseSystem \<noteq> (Inr ch, c')"
  by (simp add: calculateAtJD_def split_beta Let_def)

lemma chart_from_jd_Inr:
  assumes "chart_from_jd inner M c bd jdData = (Inr ch, c')"
  shows "av_available (fst (checkEphemerisAvailability M c (Some (jd_tt jdData)))) \<and>
         (\<exists>innerPlanets.
            inner_planets_loop inner (jd_tt jdData) [''Mercury'', ''Venus'', ''Mars''] = Inr innerPlanets \<and>
            ch = assemble_chart jdData (fst (checkEphemerisAvailability M c (Some (jd_tt jdData))))
                   (collect_planets
                      (fst (getAllEphemerisPositions M
                              (snd (checkEphemerisAvailability M c (Some (jd_tt jdData))))
                              (jd_tt jdData)))
                      innerPlanets (calculateMoonPosition (jd_tt jdData) no_options) (jd_tt jdData))
                   (bd_latitude bd) (bd_longitude bd) (bd_houseSystem bd))"
  using assms
  by (auto simp: chart_from_jd_def Let_def split_beta split: if_splits sum.splits)

lemma calculateBirthChart_Inr:
  assumes "calculateBirthChart inner M c bd = (Inr ch, c')"
  shows "\<exists>jdData. chart_from_jd inner M c bd jdData = (Inr ch, c')"
  using assms
  by (auto simp: calculateBirthChart_def Let_def split_beta calculateAtJD_fails
        split: if_splits option.splits)

lemma available_covers:
  assumes "cache_ok M c"
      and "av_available (fst (checkEphemerisAvailability M c (Some jd)))"
  shows "table_of M ''Sun'' \<noteq> [] \<and> s_jd (hd (table_of M ''Sun'')) \<le> jd \<and>
         jd \<le> s_jd (last (table_of M ''Sun''))"
  using assms(2) unfolding availability_table(1) [OF assms(1)]
  by (simp split: if_splits)

lemma chart_planet_names:
  assumes ok: "cache_ok M c" and r: "calculateBirthChart inner M c bd = (Inr ch, c')"
  shows "map cp_planet (ch_planets ch) =
           filter (\<lambda>b. lookup_position (table_of M b) (ch_julianDay ch) \<noteq> None)
             [''Sun'', ''Jupiter'', ''Saturn'', ''Uranus'', ''Neptune'', ''Pluto'']
           @ filter (\<lambda>p. has_result (inner p (ch_julianDay ch))) [''Mercury'', ''Venus'', ''Mars'']
           @ [''Moon'']"
    and "table_of M ''Sun'' \<noteq> [] \<and> s_jd (hd (table_of M ''Sun'')) \<le> ch_julianDay ch \<and>
         ch_julianDay ch \<le> s_jd (last (table_of M ''Sun''))"
proof -
  obtain jdData where "chart_from_jd inner M c bd jdData = (Inr ch, c')"
    using calculateBirthChart_Inr [OF r] by blast
  from chart_from_jd_Inr [OF this]
  obtain innerPlanets where
    av: "av_available (fst (checkEphemerisAvailability M c (Some (jd_tt jdData))))"
    and loop: "inner_planets_loop inner (jd_tt jdData) [''Mercury'', ''Venus'', ''Mars''] = Inr innerPlanets"
    and ch: "ch = assemble_chart jdData (fst (checkEphemerisAvailability M c (Some (jd_tt jdData))))
                   (collect_planets
                      (fst (getAllEphemerisPositions M
                              (snd (checkEphemerisAvailability M c (Some (jd_tt jdData))))
                              (jd_tt jdData)))
                      innerPlanets (calculateMoonPosition (jd_tt jdData) no_options) (jd_tt jdData))
                   (bd_latitude bd) (bd_longitude bd) (bd_houseSystem bd)"
    by blast
  have jd: "ch_julianDay ch = jd_tt jdData" unfolding ch by (rule assemble_chart_jd)
  have ok1: "cache_ok M (snd (checkEphemerisAvailability M c (Some (jd_tt jdData))))"
    using ok by (rule availability_table(2))
  show "map cp_planet (ch_planets ch) =
           filter (\<lambda>b. lookup_position (table_of M b) (ch_julianDay ch) \<noteq> None)
             [''Sun'', ''Jupiter'', ''Saturn'', ''Uranus'', ''Neptune'', ''Pluto'']
           @ filter (\<lambda>p. has_result (inner p (ch_julianDay ch))) [''Mercury'', ''Venus'', ''Mars'']
           @ [''Moon'']"
    unfolding jd unfolding ch assemble_chart_names collect_planets_names
      getAllEphemerisPositions_table(1) [OF ok1] found_names
      inner_planets_loop_names [OF loop] ..
  show "table_of M ''Sun'' \<noteq> [] \<and> s_jd (hd (table_of M ''Sun'')) \<le> ch_julianDay ch \<and>
         ch_julianDay ch \<le> s_jd (last (table_of M ''Sun''))"
    unfolding jd using ok av by (rule available_covers)
qed

lemma chart_from_jd_value:
  assumes ok: "cache_ok M c"
      and sun: "table_of M ''Sun'' \<noteq> []" "s_jd (hd (table_of M ''Sun'')) \<le> jd_tt jdData"
               "jd_tt jdData \<le> s_jd (last (table_of M ''Sun''))"
      and loop: "inner_planets_loop inner (jd_tt jdData) [''Mercury'', ''Venus'', ''Mars''] = Inr innerPlanets"
  shows "fst (chart_from_jd inner M c bd jdData) =
           Inr (assemble_chart jdData (fst (checkEphemerisAvailability M c (Some (jd_tt jdData))))
                  (collect_planets (List.map_filter (found M (jd_tt jdData)) bodies) innerPlanets
                     (calculateMoonPosition (jd_tt jdData) no_options) (jd_tt jdData))
                  (bd_latitude bd) (bd_longitude bd) (bd_houseSystem bd))"
proof -
  have av: "av_available (fst (checkEphemerisAvailability M c (Some (jd_tt jdData))))"
    unfolding availability_table(1) [OF ok] using sun by simp
  have ok1: "cache_ok M (snd (checkEphemerisAvailability M c (Some (jd_tt jdData))))"
    using ok by (rule availability_table(2))
  show ?thesis
    using av loop getAllEphemerisPositions_table(1) [OF ok1, of "jd_tt jdData"]
    by (simp add: chart_from_jd_def Let_def split_beta)
qed

lemma example_jd:
  "jd_tt (dateToJulianDayTT 2000 1 1 12 0 0) = 2451545 + 63.86 / 86400"
  by (simp add: dateToJulianDayTT_def dateToJulianDay_J2000 utcToTT_def calculateDeltaT_def Let_def)

lemma two_samples_table:
  assumes "jd0 \<le> jd1"
  shows "process_data (two_samples jd0 jd1) =
     [\<lparr>s_jd = jd0, s_longitude = 279.5, s_sign = ''Capricorn'', s_degInSign = 9.5, s_date = ''first''\<rparr>,
      \<lparr>s_jd = jd1, s_longitude = 281.5, s_sign = ''Capricorn'', s_degInSign = 11.5, s_date = ''last''\<rparr>]"
  using assms
  by (simp add: process_data_def two_samples_def List.map_filter_simps process_record_def
        SIGN_TO_LONGITUDE_def Let_def)

lemma example_tables:
  "table_of example_modules ''Jupiter'' = process_data (two_samples 2451600 2451700)"
  "table_of example_modules ''Sun'' = process_data (two_samples 2451544 2451546)"
  "table_of example_modules ''Saturn'' = process_data (two_samples 2451544 2451546)"
  "table_of example_modules ''Uranus'' = process_data (two_samples 2451544 2451546)"
  "table_of example_modules ''Neptune'' = process_data (two_samples 2451544 2451546)"
  "table_of example_modules ''Pluto'' = process_data (two_samples 2451544 2451546)"
  by (simp_all add: table_of_def example_modules_def)

lemma example_lookups:
  fixes jd :: real
  assumes "2451545 < jd" "jd < 2451546"
  shows "lookup_position (process_data (two_samples 2451544 2451546)) jd \<noteq> None"
    and "lookup_position (process_data (two_samples 2451600 2451700)) jd = None"
proof -
  show "lookup_position (process_data (two_samples 2451544 2451546)) jd \<noteq> None"
    by (rule lookup_in_range) (use assms in \<open>simp_all add: two_samples_table\<close>)
  show "lookup_position (process_data (two_samples 2451600 2451700)) jd = None"
    using assms by (simp add: two_samples_table lookup_position_def)
qed

lemma example_chart:
  "fst (calculateBirthChart example_inner example_modules Map.empty example_birth) =
     Inr (assemble_chart (dateToJulianDayTT 2000 1 1 12 0 0)
            (fst (checkEphemerisAvailability example_modules Map.empty
                    (Some (jd_tt (dateToJulianDayTT 2000 1 1 12 0 0)))))
            (collect_planets
               (List.map_filter (found example_modules (jd_tt (dateToJulianDayTT 2000 1 1 12 0 0))) bodies)
               [(''Mercury'', \<lparr>ic_longitude = 0, ic_method = ''J2000-Kepler''\<rparr>),
                (''Venus'', \<lparr>ic_longitude = 0, ic_method = ''J2000-Kepler''\<rparr>),
                (''Mars'', \<lparr>ic_longitude = 0, ic_method = ''J2000-Kepler''\<rparr>)]
               (calculateMoonPosition (jd_tt (dateToJulianDayTT 2000 1 1 12 0 0)) no_options)
               (jd_tt (dateToJulianDayTT 2000 1 1 12 0 0)))
            0 0 ''porphyry'')"
proof -
  have ok: "cache_ok example_modules Map.empty" by (simp add: cache_ok_def)
  have c: "calculateBirthChart example_inner example_modules Map.empty example_birth =
           chart_from_jd example_inner example_modules Map.empty example_birth
             (dateToJulianDayTT 2000 1 1 12 0 0)"
    by (simp add: calculateBirthChart_def birth_utcTime_def example_birth_def Let_def)
  have sun: "table_of example_modules ''Sun'' \<noteq> []"
    "s_jd (hd (table_of example_modules ''Sun'')) \<le> jd_tt (dateToJulianDayTT 2000 1 1 12 0 0)"
    "jd_tt (dateToJulianDayTT 2000 1 1 12 0 0) \<le> s_jd (last (table_of example_modules ''Sun''))"
    unfolding example_jd by (simp_all add: example_tables two_samples_table)
  have loop: "inner_planets_loop example_inner (jd_tt (dateToJulianDayTT 2000 1 1 12 0 0))
                [''Mercury'', ''Venus'', ''Mars''] =
              Inr [(''Mercury'', \<lparr>ic_longitude = 0, ic_method = ''J2000-Kepler''\<rparr>),
                   (''Venus'', \<lparr>ic_longitude = 0, ic_method = ''J2000-Kepler''\<rparr>),
                   (''Mars'', \<lparr>ic_longitude = 0, ic_method = ''J2000-Kepler''\<rparr>)]"
    by (simp add: example_inner_def)
  show ?thesis
    unfolding c using chart_from_jd_value [OF ok sun loop, of example_birth]
    by (simp add: example_birth_def)
qed

lemma example_names:
  "map cp_planet (ch_planets (projr (fst
      (calculateBirthChart example_inner example_modules Map.empty example_birth)))) =
   [''Sun'', ''Saturn'', ''Uranus'', ''Neptune'', ''Pluto'', ''Mercury'', ''Venus'', ''Mars'', ''Moon'']"
proof -
  have b: "2451545 < jd_tt (dateToJulianDayTT 2000 1 1 12 0 0)"
    "jd_tt (dateToJulianDayTT 2000 1 1 12 0 0) < 2451546"
    unfolding example_jd by simp_all
  note l = example_lookups [OF b]
  show ?thesis
    unfolding example_chart sum.sel assemble_chart_names collect_planets_names found_names
    by (simp add: example_tables l)
qed

text \<open>
  C2, as stated, fails. In the example state the table of the Sun covers the Julian
  day of 2000-01-01 12:00 UTC, so the availability check passes, but the table of
  Jupiter does not, and the lookup of Jupiter returns \<open>null\<close>. \<open>calculateBirthChart\<close>
  raises no error and returns a chart with nine planets, among which Jupiter, one of the
  ten bodies, is missing.
\<close>

theorem partial_chart_counterexample:
  "\<not> isl (fst (calculateBirthChart example_inner example_modules Map.empty example_birth)) \<and>
   ''Jupiter'' \<in> set bodies \<and>
   ''Jupiter'' \<notin> set (map cp_planet (ch_planets (projr (fst
      (calculateBirthChart example_inner example_modules Map.empty example_birth)))))"
  unfolding example_names by (simp add: example_chart bodies_def)

text \<open>
  C2, amended. Whenever \<open>calculateBirthChart\<close> returns a chart rather than an error,
  the table of the Sun covers the chart's Julian day, and the planets of the chart are,
  in this order: those of Sun, Jupiter, Saturn, Uranus, Neptune and Pluto whose own
  table lookup at that Julian day returns a position (the Sun's always does); those of
  Mercury, Venus and Mars for which \<open>calculateInnerPlanet\<close> returns a result; and the
  Moon. A body whose lookup returns \<open>null\<close> is left out without an error.
\<close>

theorem chart_holds_found_bodies:
  assumes "cache_ok M c" and "calculateBirthChart inner M c bd = (Inr ch, c')"
  shows "map cp_planet (ch_planets ch) =
           filter (\<lambda>b. lookup_position (table_of M b) (ch_julianDay ch) \<noteq> None)
             [''Sun'', ''Jupiter'', ''Saturn'', ''Uranus'', ''Neptune'', ''Pluto'']
           @ filter (\<lambda>p. has_result (inner p (ch_julianDay ch))) [''Mercury'', ''Venus'', ''Mars'']
           @ [''Moon''] \<and>
         table_of M ''Sun'' \<noteq> [] \<and> s_jd (hd (table_of M ''Sun'')) \<le> ch_julianDay ch \<and>
         ch_julianDay ch \<le> s_jd (last (table_of M ''Sun'')) \<and>
         lookup_position (table_of M ''Sun'') (ch_julianDay ch) \<noteq> None"
  using chart_planet_names [OF assms] by (simp add: lookup_in_range)

theorem chart_holds_found_bodies_witness:
  "cache_ok example_modules Map.empty \<and>
   calculateBirthChart example_inner example_modules Map.empty example_birth =
     (Inr (projr (fst (calculateBirthChart example_inner example_modules Map.empty example_birth))),
      snd (calculateBirthChart example_inner example_modules Map.empty example_birth)) \<and>
   map cp_planet (ch_planets (projr (fst
      (calculateBirthChart example_inner example_modules Map.empty example_birth)))) =
     [''Sun'', ''Saturn'', ''Uranus'', ''Neptune'', ''Pluto'', ''Mercury'', ''Venus'', ''Mars'', ''Moon'']"
proof -
  let ?r = "calculateBirthChart example_inner example_modules Map.empty example_birth"
  have ok: "cache_ok example_modules Map.empty" by (simp add: cache_ok_def)
  have "\<not> isl (fst ?r)" by (simp add: example_chart)
  then have eq: "?r = (Inr (projr (fst ?r)), snd ?r)" by (simp add: prod_eq_iff)
  have b: "2451545 < jd_tt (dateToJulianDayTT 2000 1 1 12 0 0)"
    "jd_tt (dateToJulianDayTT 2000 1 1 12 0 0) < 2451546"
    unfolding example_jd by simp_all
  have jd: "ch_julianDay (projr (fst ?r)) = jd_tt (dateToJulianDayTT 2000 1 1 12 0 0)"
    unfolding example_chart sum.sel by (rule assemble_chart_jd)
  have "map cp_planet (ch_planets (projr (fst ?r))) =
     [''Sun'', ''Saturn'', ''Uranus'', ''Neptune'', ''Pluto'', ''Mercury'', ''Venus'', ''Mars'', ''Moon'']"
    using chart_holds_found_bodies [OF ok eq] unfolding jd
    by (simp add: example_tables example_lookups [OF b] example_inner_def has_result_simps)
  with ok eq show ?thesis by blast
qed

end
